theory Spec2Isabelle
  imports Complex_Main "HOL-Library.Char_ord" "HOL-Library.List_Lexorder"
begin

section \<open>Data model\<close>

text \<open>
  The classes that \<open>datStatus.ts\<close> and the fixdat creator import (Game, ROM, File,
  ROMWithFiles, WriteCandidate, DAT, Options) are used through their getters only; each
  becomes a record whose fields are the values the getters return. The result of
  \<open>hashCode()\<close> is such a field (\<open>gameHashCode\<close>, \<open>romHashCode\<close>): how a hash code
  is derived from the other fields is not part of these sources, and nothing below assumes it.
\<close>

datatype ROMType = GAME | BIOS | DEVICE | RETAIL | PATCHED

fun romTypeLabel :: "ROMType \<Rightarrow> string" where
  "romTypeLabel GAME = ''games''"
| "romTypeLabel BIOS = ''BIOSes''"
| "romTypeLabel DEVICE = ''devices''"
| "romTypeLabel RETAIL = ''retail releases''"
| "romTypeLabel PATCHED = ''patched games''"

datatype GameStatus = FOUND | INCOMPLETE | MISSING | DUPLICATE | UNUSED | DELETED

fun GameStatusInverted :: "GameStatus \<Rightarrow> string" where
  "GameStatusInverted FOUND = ''FOUND''"
| "GameStatusInverted INCOMPLETE = ''INCOMPLETE''"
| "GameStatusInverted MISSING = ''MISSING''"
| "GameStatusInverted DUPLICATE = ''DUPLICATE''"
| "GameStatusInverted UNUSED = ''UNUSED''"
| "GameStatusInverted DELETED = ''DELETED''"

record ROM =
  romHashCode :: string

record Game =
  gameName :: string
  gameRoms :: "ROM list"
  getIsBios :: bool
  getIsDevice :: bool
  isRetail :: bool
  isUnlicensed :: bool
  isDebug :: bool
  isDemo :: bool
  isBeta :: bool
  isSample :: bool
  isPrototype :: bool
  isProgram :: bool
  isAftermarket :: bool
  isHomebrew :: bool
  isBad :: bool
  gameHashCode :: string

record File =
  getFilePath :: string

record ROMWithFiles =
  getRom :: ROM
  getInputFile :: File
  getOutputFile :: File

record WriteCandidate =
  getGame :: Game
  getRomsWithFiles :: "ROMWithFiles list"
  isPatched :: bool

record DAT =
  datName :: string
  getGames :: "Game list"

record Options =
  getOnlyBios :: bool
  getOnlyDevice :: bool
  getOnlyRetail :: bool
  getNoBios :: bool
  getNoDevice :: bool
  usingDats :: bool
  shouldWrite :: bool
  shouldFixdat :: bool
  getFixdatOutput :: string

text \<open>
  Modelled from the spec: \<open>Game.equals\<close> (the Game class is not part of the sources).
  "Equality is by a stable content identity (hash code) derived from its defining fields,
  not object identity."
\<close>

definition gameEquals :: "Game \<Rightarrow> Game \<Rightarrow> bool" where
  "gameEquals a b = (gameHashCode a = gameHashCode b)"

section \<open>JavaScript containers\<close>

text \<open>
  A JavaScript \<open>Map\<close> whose values are arrays, as an association list in key insertion
  order. \<open>mapPush\<close> is the idiom the source writes twice (in the constructor's
  \<open>reduce\<close> and in \<open>append\<close>): push onto the key's array when the key is present,
  otherwise set the key to a one-element array (a new key goes last).
\<close>

type_synonym ('k, 'v) jsmap = "('k \<times> 'v list) list"

fun mapPush :: "('k, 'v) jsmap \<Rightarrow> 'k \<Rightarrow> 'v \<Rightarrow> ('k, 'v) jsmap" where
  "mapPush [] k v = [(k, [v])]"
| "mapPush ((k', vs) # m) k v =
     (if k' = k then (k', vs @ [v]) # m else (k', vs) # mapPush m k v)"

definition mapGet :: "('k, 'v) jsmap \<Rightarrow> 'k \<Rightarrow> 'v list option" where
  "mapGet m k = map_of m k"

text \<open>\<open>map.get(k) ?? []\<close>\<close>

definition mapGetOrEmpty :: "('k, 'v) jsmap \<Rightarrow> 'k \<Rightarrow> 'v list" where
  "mapGetOrEmpty m k = (case mapGet m k of None \<Rightarrow> [] | Some vs \<Rightarrow> vs)"

text \<open>\<open>[...map.values()].flat()\<close>\<close>

definition mapValuesFlat :: "('k, 'v) jsmap \<Rightarrow> 'v list" where
  "mapValuesFlat m = concat (map snd m)"

text \<open>\<open>array.at(0)\<close>: the first element, undefined on an empty array.\<close>

fun at0 :: "'a list \<Rightarrow> 'a option" where
  "at0 [] = None"
| "at0 (x # xs) = Some x"

section \<open>The status engine\<close>

record DATStatus =
  dat :: DAT
  allRomTypesToGames :: "(ROMType, Game) jsmap"
  foundRomTypesToCandidates :: "(ROMType, WriteCandidate option) jsmap"
  incompleteRomTypesToCandidates :: "(ROMType, WriteCandidate) jsmap"

definition append :: "(ROMType, 'a) jsmap \<Rightarrow> ROMType \<Rightarrow> 'a \<Rightarrow> (ROMType, 'a) jsmap" where
  "append m romType v = mapPush m romType v"

definition pushValueIntoMap :: "(ROMType, 'a) jsmap \<Rightarrow> Game \<Rightarrow> 'a \<Rightarrow> (ROMType, 'a) jsmap" where
  "pushValueIntoMap m game v =
     (let m1 = append m GAME v;
          m2 = (if getIsBios game then append m1 BIOS v else m1);
          m3 = (if getIsDevice game then append m2 DEVICE v else m2)
      in if isRetail game then append m3 RETAIL v else m3)"

text \<open>The \<open>reduce\<close> that groups the candidates by the hash code of their game.\<close>

definition indexCandidates :: "WriteCandidate list \<Rightarrow> (string, WriteCandidate) jsmap" where
  "indexCandidates candidates =
     foldl (\<lambda>m candidate. mapPush m (gameHashCode (getGame candidate)) candidate) [] candidates"

text \<open>The body of the \<open>forEach\<close> over the games of the DAT ("Un-patched ROMs").\<close>

definition classifyGame ::
  "(string, WriteCandidate) jsmap \<Rightarrow> DATStatus \<Rightarrow> Game \<Rightarrow> DATStatus" where
  "classifyGame indexedCandidates st game =
     (let st1 = st\<lparr>allRomTypesToGames := pushValueIntoMap (allRomTypesToGames st) game game\<rparr>;
          gameCandidates = mapGet indexedCandidates (gameHashCode game)
      in if gameCandidates \<noteq> None \<or> length (gameRoms game) = 0 then
           (let gameCandidate = (case gameCandidates of None \<Rightarrow> None | Some cs \<Rightarrow> at0 cs)
            in case gameCandidate of
                 Some c \<Rightarrow>
                   if length (getRomsWithFiles c) \<noteq> length (gameRoms game)
                   then st1\<lparr>incompleteRomTypesToCandidates :=
                          pushValueIntoMap (incompleteRomTypesToCandidates st1) game c\<rparr>
                   else st1\<lparr>foundRomTypesToCandidates :=
                          pushValueIntoMap (foundRomTypesToCandidates st1) game (Some c)\<rparr>
               | None \<Rightarrow>
                   st1\<lparr>foundRomTypesToCandidates :=
                          pushValueIntoMap (foundRomTypesToCandidates st1) game None\<rparr>)
         else st1)"

text \<open>The body of the loop over the patched candidates ("Patched ROMs").\<close>

definition recordPatched :: "DATStatus \<Rightarrow> WriteCandidate \<Rightarrow> DATStatus" where
  "recordPatched st candidate =
     st\<lparr>allRomTypesToGames := append (allRomTypesToGames st) PATCHED (getGame candidate),
        foundRomTypesToCandidates :=
          append (foundRomTypesToCandidates st) PATCHED (Some candidate)\<rparr>"

definition emptyStatus :: "DAT \<Rightarrow> DATStatus" where
  "emptyStatus d =
     \<lparr>dat = d, allRomTypesToGames = [], foundRomTypesToCandidates = [],
      incompleteRomTypesToCandidates = []\<rparr>"

definition newDATStatus :: "DAT \<Rightarrow> WriteCandidate list \<Rightarrow> DATStatus" where
  "newDATStatus d candidates =
     (let indexedCandidates = indexCandidates candidates;
          st = foldl (classifyGame indexedCandidates) (emptyStatus d) (getGames d)
      in foldl recordPatched st (filter isPatched candidates))"

definition getDATName :: "DATStatus \<Rightarrow> string" where
  "getDATName st = datName (dat st)"

subsection \<open>Allowed ROM types\<close>

definition getAllowedTypes :: "Options \<Rightarrow> ROMType list" where
  "getAllowedTypes options =
     List.map_filter (\<lambda>x. x)
       [if \<not> getOnlyBios options \<and> \<not> getOnlyDevice options \<and> \<not> getOnlyRetail options
          then Some GAME else None,
        if getOnlyBios options \<or> (\<not> getNoBios options \<and> \<not> getOnlyDevice options)
          then Some BIOS else None,
        if getOnlyDevice options \<or> (\<not> getOnlyBios options \<and> \<not> getNoDevice options)
          then Some DEVICE else None,
        if getOnlyRetail options \<or> (\<not> getOnlyBios options \<and> \<not> getOnlyDevice options)
          then Some RETAIL else None,
        Some PATCHED]"

subsection \<open>Queries\<close>

definition getInputFiles :: "DATStatus \<Rightarrow> File list" where
  "getInputFiles st =
     map getInputFile
       (concat (map getRomsWithFiles
         (List.map_filter (\<lambda>candidate. candidate)
           (mapValuesFlat (foundRomTypesToCandidates st) @
            map Some (mapValuesFlat (incompleteRomTypesToCandidates st))))))"

definition anyGamesFound :: "Options \<Rightarrow> DATStatus \<Rightarrow> bool" where
  "anyGamesFound options st =
     foldl (\<lambda>result romType.
              let foundCandidates =
                    (case mapGet (foundRomTypesToCandidates st) romType of
                       None \<Rightarrow> 0 | Some vs \<Rightarrow> length vs)
              in result \<or> foundCandidates > 0)
       False (getAllowedTypes options)"

subsection \<open>Console rendering\<close>

text \<open>
  \<open>toLocaleString\<close> (number formatting) and \<open>chalk.rgb\<close> (terminal colouring) are library
  functions and are passed in. The percentage is computed over the reals, where the source
  computes in double precision.
\<close>

fun joinWith :: "string \<Rightarrow> string list \<Rightarrow> string" where
  "joinWith sep [] = []"
| "joinWith sep [x] = x"
| "joinWith sep (x # y # ys) = x @ sep @ joinWith sep (y # ys)"

definition renderType ::
  "(nat \<Rightarrow> string) \<Rightarrow> (nat \<Rightarrow> nat \<Rightarrow> nat \<Rightarrow> string \<Rightarrow> string) \<Rightarrow> Options \<Rightarrow> DATStatus \<Rightarrow>
     ROMType \<Rightarrow> string" where
  "renderType toLocaleString rgb options st type =
     (let found = mapGetOrEmpty (foundRomTypesToCandidates st) type;
          all = mapGetOrEmpty (allRomTypesToGames st) type
      in if \<not> usingDats options then toLocaleString (length found) @ '' '' @ romTypeLabel type
         else
           (let percentage = real (length found) / real (length all) * 100;
                color =
                  (if percentage \<ge> 100 then rgb 0 166 0
                   else if percentage \<ge> 75 then rgb 153 153 0
                   else if percentage \<ge> 50 then rgb 160 124 0
                   else if percentage \<ge> 25 then rgb 162 93 0
                   else if percentage > 0 then rgb 160 59 0
                   else rgb 153 0 0)
            in if type = PATCHED
               then color (toLocaleString (length all)) @ '' '' @ romTypeLabel type
               else color (toLocaleString (length found)) @ ''/'' @
                      toLocaleString (length all) @ '' '' @ romTypeLabel type))"

definition toConsole ::
  "(nat \<Rightarrow> string) \<Rightarrow> (nat \<Rightarrow> nat \<Rightarrow> nat \<Rightarrow> string \<Rightarrow> string) \<Rightarrow> Options \<Rightarrow> DATStatus \<Rightarrow>
     string" where
  "toConsole toLocaleString rgb options st =
     joinWith '', ''
       (filter (\<lambda>segment. length segment > 0)
         (map (renderType toLocaleString rgb options st)
           (filter (\<lambda>type. case mapGet (allRomTypesToGames st) type of
                             None \<Rightarrow> False | Some games \<Rightarrow> length games > 0)
             (getAllowedTypes options))))
     @ '' '' @ (if shouldWrite options then ''written'' else ''found'')"

subsection \<open>CSV export\<close>

text \<open>
  Modelled from the spec: \<open>ArrayPoly.reduceUnique\<close> (the polyfill is not part of the
  sources): "deduplicate". The first occurrence of each value is kept, in order. Values are
  compared by their contents.
\<close>

definition reduceUnique :: "'a list \<Rightarrow> 'a list" where
  "reduceUnique xs = foldl (\<lambda>uniques x. if x \<in> set uniques then uniques else uniques @ [x]) [] xs"

text \<open>
  \<open>Array.prototype.sort()\<close> without a comparator orders the elements by their string
  conversion and is stable. The arrays sorted this way hold Game and WriteCandidate objects,
  which all convert to the same string.
\<close>

definition sortDefault :: "'a list \<Rightarrow> 'a list" where
  "sortDefault xs = sort_key (\<lambda>_. ''[object Object]'') xs"

text \<open>
  \<open>Array.prototype.sort(compare)\<close>, stable: an element goes before the first one it does
  not compare greater than.
\<close>

fun insertBy :: "('a \<Rightarrow> 'a \<Rightarrow> int) \<Rightarrow> 'a \<Rightarrow> 'a list \<Rightarrow> 'a list" where
  "insertBy compare x [] = [x]"
| "insertBy compare x (y # ys) =
     (if compare x y \<le> 0 then x # y # ys else y # insertBy compare x ys)"

definition sortBy :: "('a \<Rightarrow> 'a \<Rightarrow> int) \<Rightarrow> 'a list \<Rightarrow> 'a list" where
  "sortBy compare xs = foldr (insertBy compare) xs []"

text \<open>
  \<open>flatMap\<close> over the allowed types yields the values of each type that has a key and one
  \<open>undefined\<close> for each type that has none; the filter then removes every \<open>undefined\<close>,
  also the \<open>undefined\<close> entries of the found map. \<open>isUndefined\<close> says which values of
  the element type are \<open>undefined\<close>.
\<close>

definition getValuesForAllowedTypes ::
  "('a \<Rightarrow> bool) \<Rightarrow> Options \<Rightarrow> (ROMType, 'a) jsmap \<Rightarrow> 'a list" where
  "getValuesForAllowedTypes isUndefined options romTypesToValues =
     sortDefault (reduceUnique (filter (\<lambda>v. \<not> isUndefined v)
       (concat (map (\<lambda>type. mapGetOrEmpty romTypesToValues type) (getAllowedTypes options)))))"

definition jsString :: "bool \<Rightarrow> string" where
  "jsString b = (if b then ''true'' else ''false'')"

definition buildCsvRow ::
  "string \<Rightarrow> string \<Rightarrow> GameStatus \<Rightarrow> string list \<Rightarrow> bool \<Rightarrow> bool \<Rightarrow> bool \<Rightarrow> bool \<Rightarrow> bool \<Rightarrow> bool \<Rightarrow>
     bool \<Rightarrow> bool \<Rightarrow> bool \<Rightarrow> bool \<Rightarrow> bool \<Rightarrow> bool \<Rightarrow> bool \<Rightarrow> string list" where
  "buildCsvRow datName' gameName' status filePaths patched bios retail unlicensed debug demo
     beta sample prototype test aftermarket homebrew bad =
     [datName', gameName', GameStatusInverted status, joinWith ''|'' filePaths,
      jsString patched, jsString bios, jsString retail, jsString unlicensed, jsString debug,
      jsString demo, jsString beta, jsString sample, jsString prototype, jsString test,
      jsString aftermarket, jsString homebrew, jsString bad]"

text \<open>The callback that \<open>toCsv\<close> maps over the games: one row per game.\<close>

definition csvRow ::
  "Options \<Rightarrow> DATStatus \<Rightarrow> WriteCandidate option list \<Rightarrow> WriteCandidate list \<Rightarrow> Game \<Rightarrow>
     string list" where
  "csvRow options st foundCandidates incompleteCandidates game =
     (let status0 = MISSING;
          incompleteCandidate =
            List.find (\<lambda>candidate. gameEquals (getGame candidate) game) incompleteCandidates;
          status1 = (if incompleteCandidate \<noteq> None then INCOMPLETE else status0);
          foundCandidate =
            (case List.find
                    (\<lambda>candidate. case candidate of
                                    None \<Rightarrow> False
                                  | Some c \<Rightarrow> gameEquals (getGame c) game)
                    foundCandidates of
               None \<Rightarrow> None | Some candidate \<Rightarrow> candidate);
          status = (if foundCandidate \<noteq> None \<or> length (gameRoms game) = 0
                    then FOUND else status1);
          filePaths =
            reduceUnique
              (map getFilePath
                (map (\<lambda>romWithFiles. if shouldWrite options then getOutputFile romWithFiles
                                      else getInputFile romWithFiles)
                  ((case incompleteCandidate of None \<Rightarrow> [] | Some c \<Rightarrow> getRomsWithFiles c) @
                   (case foundCandidate of None \<Rightarrow> [] | Some c \<Rightarrow> getRomsWithFiles c))))
      in buildCsvRow (getDATName st) (gameName game) status filePaths
           (case foundCandidate of None \<Rightarrow> False | Some c \<Rightarrow> isPatched c)
           (getIsBios game) (isRetail game) (isUnlicensed game) (isDebug game) (isDemo game)
           (isBeta game) (isSample game) (isPrototype game) (isProgram game)
           (isAftermarket game) (isHomebrew game) (isBad game))"

text \<open>\<open>localeCompare\<close> (locale collation of two names) is passed in.\<close>

definition csvRows :: "(string \<Rightarrow> string \<Rightarrow> int) \<Rightarrow> Options \<Rightarrow> DATStatus \<Rightarrow> string list list" where
  "csvRows localeCompare options st =
     (let foundCandidates =
            getValuesForAllowedTypes (\<lambda>v. v = None) options (foundRomTypesToCandidates st);
          incompleteCandidates =
            getValuesForAllowedTypes (\<lambda>v. False) options (incompleteRomTypesToCandidates st)
      in map (csvRow options st foundCandidates incompleteCandidates)
           (sortBy (\<lambda>a b. localeCompare (gameName a) (gameName b))
             (reduceUnique
               (getValuesForAllowedTypes (\<lambda>v. False) options (allRomTypesToGames st)))))"

definition csvHeaders :: "string list" where
  "csvHeaders =
     [''DAT Name'', ''Game Name'', ''Status'', ''ROM Files'', ''Patched'', ''BIOS'',
      ''Retail Release'', ''Unlicensed'', ''Debug'', ''Demo'', ''Beta'', ''Sample'',
      ''Prototype'', ''Program'', ''Aftermarket'', ''Homebrew'', ''Bad'']"

text \<open>\<open>writeToString\<close> of the CSV library is passed in.\<close>

definition toCsv ::
  "(string list option \<Rightarrow> string list list \<Rightarrow> string) \<Rightarrow> (string \<Rightarrow> string \<Rightarrow> int) \<Rightarrow> Options \<Rightarrow>
     DATStatus \<Rightarrow> string" where
  "toCsv writeToString localeCompare options st =
     writeToString (Some csvHeaders) (csvRows localeCompare options st)"

definition filesToCsv ::
  "(string list option \<Rightarrow> string list list \<Rightarrow> string) \<Rightarrow> string list \<Rightarrow> GameStatus \<Rightarrow> string" where
  "filesToCsv writeToString filePaths status =
     writeToString None
       (map (\<lambda>filePath. buildCsvRow [] [] status [filePath] False False False False False
               False False False False False False False False) filePaths)"

section \<open>The fixdat creator\<close>

text \<open>
  Modelled from the spec: \<open>IgirHeader\<close> and \<open>LogiqxDAT\<close> (not part of the sources): "a
  header carrying the literal name \<open>fixdat\<close>, a back-reference to the source catalog's
  identity/metadata, and the filtered game list as its only content".
\<close>

record IgirHeader =
  headerName :: string
  headerDat :: DAT
  headerOptions :: Options

record LogiqxDAT =
  getHeader :: IgirHeader
  logiqxGames :: "Game list"

text \<open>
  What \<open>create\<close> reaches outside this file: the file system (\<open>FsPoly.exists\<close>; whether
  \<open>FsPoly.mkdir\<close> and \<open>FsPoly.writeFile\<close> succeed, a failure rejecting the promise), the
  serialisation and the file name of the derived DAT, and \<open>path.join\<close>.
\<close>

record FixdatEnv =
  fsExists :: "string \<Rightarrow> bool"
  fsMkdir :: "string \<Rightarrow> bool"
  fsWriteFile :: "string \<Rightarrow> string \<Rightarrow> bool"
  toXmlDat :: "LogiqxDAT \<Rightarrow> string"
  getFilename :: "LogiqxDAT \<Rightarrow> string"
  pathJoin :: "string \<Rightarrow> string \<Rightarrow> string"

datatype FsError = MkdirFailed | WriteFileFailed

definition writtenRomHashCodes :: "WriteCandidate list \<Rightarrow> string set" where
  "writtenRomHashCodes candidates =
     set (map romHashCode (map getRom (concat (map getRomsWithFiles candidates))))"

definition gamesWithMissingRoms :: "DAT \<Rightarrow> WriteCandidate list \<Rightarrow> Game list" where
  "gamesWithMissingRoms originalDat candidates =
     filter (\<lambda>game. \<not> list_all (\<lambda>rom. romHashCode rom \<in> writtenRomHashCodes candidates)
                        (gameRoms game))
       (getGames originalDat)"

text \<open>
  \<open>create\<close> resolves to the path written, or to \<open>undefined\<close>; the model returns the
  derived DAT beside the path, so that its game list can be observed. Progress-bar logging is
  left out.
\<close>

definition create ::
  "FixdatEnv \<Rightarrow> Options \<Rightarrow> DAT \<Rightarrow> WriteCandidate list \<Rightarrow> FsError + (string \<times> LogiqxDAT) option" where
  "create env options originalDat candidates =
     (if \<not> shouldFixdat options then Inr None
      else
        (let missing = gamesWithMissingRoms originalDat candidates
         in if length missing = 0 then Inr None
            else
              (let fixdatDir = getFixdatOutput options
               in if \<not> fsExists env fixdatDir \<and> \<not> fsMkdir env fixdatDir then Inl MkdirFailed
                  else
                    (let header = \<lparr>headerName = ''fixdat'', headerDat = originalDat,
                                   headerOptions = options\<rparr>;
                         fixdat = \<lparr>getHeader = header, logiqxGames = missing\<rparr>;
                         fixdatContents = toXmlDat env fixdat;
                         fixdatPath = pathJoin env fixdatDir (getFilename env fixdat)
                     in if \<not> fsWriteFile env fixdatPath fixdatContents
                        then Inl WriteFileFailed
                        else Inr (Some (fixdatPath, fixdat))))))"

section \<open>What the partitions hold, stated over the inputs\<close>

text \<open>
  The definitions of this section are not translations of source functions: they describe
  the contents of the partitions directly from the DAT and the candidate list, and the
  theorems below compare the constructor with them.
\<close>

text \<open>The tags under which \<open>pushValueIntoMap\<close> files a game.\<close>

fun qualifies :: "Game \<Rightarrow> ROMType \<Rightarrow> bool" where
  "qualifies game GAME = True"
| "qualifies game BIOS = getIsBios game"
| "qualifies game DEVICE = getIsDevice game"
| "qualifies game RETAIL = isRetail game"
| "qualifies game PATCHED = False"

text \<open>The first candidate, in list order, whose game has the given hash code.\<close>

definition firstCandidate :: "WriteCandidate list \<Rightarrow> string \<Rightarrow> WriteCandidate option" where
  "firstCandidate candidates h = List.find (\<lambda>c. gameHashCode (getGame c) = h) candidates"

text \<open>
  What one game contributes to the found and to the incomplete partition when the test is
  "the resolved-rom count differs from the declared count".
\<close>

definition recordedFound :: "WriteCandidate list \<Rightarrow> Game \<Rightarrow> WriteCandidate option list" where
  "recordedFound candidates game =
     (case firstCandidate candidates (gameHashCode game) of
        Some c \<Rightarrow>
          if length (getRomsWithFiles c) \<noteq> length (gameRoms game) then [] else [Some c]
      | None \<Rightarrow> if gameRoms game = [] then [None] else [])"

definition recordedIncomplete :: "WriteCandidate list \<Rightarrow> Game \<Rightarrow> WriteCandidate list" where
  "recordedIncomplete candidates game =
     (case firstCandidate candidates (gameHashCode game) of
        Some c \<Rightarrow>
          if length (getRomsWithFiles c) \<noteq> length (gameRoms game) then [c] else []
      | None \<Rightarrow> [])"

text \<open>
  The same contributions when the test is the specification's "the resolved-rom count is
  strictly less than the declared count".
\<close>

definition specFound :: "WriteCandidate list \<Rightarrow> Game \<Rightarrow> WriteCandidate option list" where
  "specFound candidates game =
     (case firstCandidate candidates (gameHashCode game) of
        Some c \<Rightarrow>
          if length (getRomsWithFiles c) < length (gameRoms game) then [] else [Some c]
      | None \<Rightarrow> if gameRoms game = [] then [None] else [])"

definition specIncomplete :: "WriteCandidate list \<Rightarrow> Game \<Rightarrow> WriteCandidate list" where
  "specIncomplete candidates game =
     (case firstCandidate candidates (gameHashCode game) of
        Some c \<Rightarrow>
          if length (getRomsWithFiles c) < length (gameRoms game) then [c] else []
      | None \<Rightarrow> [])"

text \<open>
  A game appears in a partition when a candidate stored there (under any tag) is a candidate
  of that game, by the match \<open>toCsv\<close> applies.
\<close>

definition gameInFound :: "DATStatus \<Rightarrow> Game \<Rightarrow> bool" where
  "gameInFound st game =
     list_ex (\<lambda>candidate. case candidate of
                            None \<Rightarrow> False
                          | Some c \<Rightarrow> gameEquals (getGame c) game)
       (mapValuesFlat (foundRomTypesToCandidates st))"

definition gameInIncomplete :: "DATStatus \<Rightarrow> Game \<Rightarrow> bool" where
  "gameInIncomplete st game =
     list_ex (\<lambda>c. gameEquals (getGame c) game)
       (mapValuesFlat (incompleteRomTypesToCandidates st))"

text \<open>The same, under one tag.\<close>

definition gameInFoundUnder :: "DATStatus \<Rightarrow> ROMType \<Rightarrow> Game \<Rightarrow> bool" where
  "gameInFoundUnder st type game =
     list_ex (\<lambda>candidate. case candidate of
                            None \<Rightarrow> False
                          | Some c \<Rightarrow> gameEquals (getGame c) game)
       (mapGetOrEmpty (foundRomTypesToCandidates st) type)"

definition gameInIncompleteUnder :: "DATStatus \<Rightarrow> ROMType \<Rightarrow> Game \<Rightarrow> bool" where
  "gameInIncompleteUnder st type game =
     list_ex (\<lambda>c. gameEquals (getGame c) game)
       (mapGetOrEmpty (incompleteRomTypesToCandidates st) type)"

text \<open>
  The keys of a map after a run of \<open>mapPush\<close>: each new key goes last. \<open>tagsOf\<close> are
  the tags \<open>pushValueIntoMap\<close> pushes for a game, in its order; \<open>tagOrder\<close> is the key
  order of a partition into which the given games were recorded, in that order. The lists
  \<open>recordedFoundUnder\<close> and \<open>recordedIncompleteUnder\<close> are what the games contribute to
  one tag.
\<close>

definition tagsOf :: "Game \<Rightarrow> ROMType list" where
  "tagsOf game = filter (qualifies game) [GAME, BIOS, DEVICE, RETAIL]"

definition addKeys :: "'k list \<Rightarrow> 'k list \<Rightarrow> 'k list" where
  "addKeys keys new = foldl (\<lambda>ks k. if k \<in> set ks then ks else ks @ [k]) keys new"

definition tagOrder :: "Game list \<Rightarrow> ROMType list" where
  "tagOrder games = addKeys [] (concat (map tagsOf games))"

definition recordedFoundUnder ::
  "WriteCandidate list \<Rightarrow> Game list \<Rightarrow> ROMType \<Rightarrow> WriteCandidate option list" where
  "recordedFoundUnder candidates games type =
     concat (map (\<lambda>g. if qualifies g type then recordedFound candidates g else []) games)"

definition recordedIncompleteUnder ::
  "WriteCandidate list \<Rightarrow> Game list \<Rightarrow> ROMType \<Rightarrow> WriteCandidate list" where
  "recordedIncompleteUnder candidates games type =
     concat (map (\<lambda>g. if qualifies g type then recordedIncomplete candidates g else []) games)"

text \<open>
  The console segments of the allowed tags other than \<open>patched games\<close>, as \<open>toConsole\<close>
  filters and renders them.
\<close>

definition unpatchedSegments ::
  "(nat \<Rightarrow> string) \<Rightarrow> (nat \<Rightarrow> nat \<Rightarrow> nat \<Rightarrow> string \<Rightarrow> string) \<Rightarrow> Options \<Rightarrow> DATStatus \<Rightarrow>
     string list" where
  "unpatchedSegments toLocaleString rgb options st =
     filter (\<lambda>segment. length segment > 0)
       (map (renderType toLocaleString rgb options st)
         (filter (\<lambda>type. case mapGet (allRomTypesToGames st) type of
                           None \<Rightarrow> False | Some games \<Rightarrow> length games > 0)
           (filter (\<lambda>type. type \<noteq> PATCHED) (getAllowedTypes options))))"

text \<open>
  A found-candidate (an incomplete-candidate) match exists for a game when a candidate stored
  in the found (incomplete) partition under an allowed tag is a candidate of the game.
\<close>

definition foundMatch :: "Options \<Rightarrow> DATStatus \<Rightarrow> Game \<Rightarrow> bool" where
  "foundMatch options st game =
     list_ex (\<lambda>type.
         list_ex (\<lambda>candidate. case candidate of
                                None \<Rightarrow> False
                              | Some c \<Rightarrow> gameEquals (getGame c) game)
           (mapGetOrEmpty (foundRomTypesToCandidates st) type))
       (getAllowedTypes options)"

definition incompleteMatch :: "Options \<Rightarrow> DATStatus \<Rightarrow> Game \<Rightarrow> bool" where
  "incompleteMatch options st game =
     list_ex (\<lambda>type.
         list_ex (\<lambda>c. gameEquals (getGame c) game)
           (mapGetOrEmpty (incompleteRomTypesToCandidates st) type))
       (getAllowedTypes options)"

text \<open>
  A game has an unresolved rom when one of its declared roms has a hash code that the rom of no
  resolved pair of any candidate has.
\<close>

definition hasUnresolvedRom :: "WriteCandidate list \<Rightarrow> Game \<Rightarrow> bool" where
  "hasUnresolvedRom candidates game =
     list_ex (\<lambda>rom. list_all (\<lambda>candidate.
                list_all (\<lambda>romWithFiles. romHashCode (getRom romWithFiles) \<noteq> romHashCode rom)
                  (getRomsWithFiles candidate)) candidates)
       (gameRoms game)"


section \<open>Concrete inputs\<close>

definition defaultOptions :: Options where
  "defaultOptions =
     \<lparr>getOnlyBios = False, getOnlyDevice = False, getOnlyRetail = False, getNoBios = False,
      getNoDevice = False, usingDats = True, shouldWrite = False, shouldFixdat = True,
      getFixdatOutput = ''out''\<rparr>"

definition plainGame :: Game where
  "plainGame =
     \<lparr>gameName = [], gameRoms = [], getIsBios = False, getIsDevice = False,
      isRetail = False, isUnlicensed = False, isDebug = False, isDemo = False, isBeta = False,
      isSample = False, isPrototype = False, isProgram = False, isAftermarket = False,
      isHomebrew = False, isBad = False, gameHashCode = []\<rparr>"

definition mkRom :: "string \<Rightarrow> ROM" where
  "mkRom h = \<lparr>romHashCode = h\<rparr>"

definition mkRomWithFiles :: "string \<Rightarrow> string \<Rightarrow> ROMWithFiles" where
  "mkRomWithFiles h path =
     \<lparr>getRom = mkRom h, getInputFile = \<lparr>getFilePath = path\<rparr>,
      getOutputFile = \<lparr>getFilePath = ''out/'' @ path\<rparr>\<rparr>"

text \<open>
  The example of the specification: GameA with two roms, both resolved; GameB with two roms,
  one resolved; GameC without roms. GameA is a retail release.
\<close>

definition gameA :: Game where
  "gameA = plainGame\<lparr>gameName := ''GameA'', gameRoms := [mkRom ''a1'', mkRom ''a2''],
     isRetail := True, gameHashCode := ''GameA''\<rparr>"

definition gameB :: Game where
  "gameB = plainGame\<lparr>gameName := ''GameB'', gameRoms := [mkRom ''b1'', mkRom ''b2''],
     gameHashCode := ''GameB''\<rparr>"

definition gameC :: Game where
  "gameC = plainGame\<lparr>gameName := ''GameC'', gameHashCode := ''GameC''\<rparr>"

definition candidateA :: WriteCandidate where
  "candidateA =
     \<lparr>getGame = gameA,
      getRomsWithFiles = [mkRomWithFiles ''a1'' ''a1.rom'', mkRomWithFiles ''a2'' ''a2.rom''],
      isPatched = False\<rparr>"

definition candidateB :: WriteCandidate where
  "candidateB =
     \<lparr>getGame = gameB, getRomsWithFiles = [mkRomWithFiles ''b1'' ''b1.rom''],
      isPatched = False\<rparr>"

definition datTest :: DAT where
  "datTest = \<lparr>datName = ''Test'', getGames = [gameA, gameB, gameC]\<rparr>"

definition candidatesTest :: "WriteCandidate list" where
  "candidatesTest = [candidateA, candidateB]"

text \<open>A game with one rom, and candidates of it with two, with no and with one resolved rom.\<close>

definition gameD :: Game where
  "gameD = plainGame\<lparr>gameName := ''GameD'', gameRoms := [mkRom ''d1''],
     gameHashCode := ''GameD''\<rparr>"

definition candidateDTwo :: WriteCandidate where
  "candidateDTwo =
     \<lparr>getGame = gameD,
      getRomsWithFiles = [mkRomWithFiles ''d1'' ''d1.rom'', mkRomWithFiles ''d1'' ''d1b.rom''],
      isPatched = False\<rparr>"

definition candidateDNone :: WriteCandidate where
  "candidateDNone = \<lparr>getGame = gameD, getRomsWithFiles = [], isPatched = False\<rparr>"

definition datD :: DAT where
  "datD = \<lparr>datName = ''D'', getGames = [gameD]\<rparr>"

text \<open>A patched candidate of GameB that resolves one of its two roms.\<close>

definition candidateBPatched :: WriteCandidate where
  "candidateBPatched = candidateB\<lparr>isPatched := True\<rparr>"

definition datB :: DAT where
  "datB = \<lparr>datName = ''B'', getGames = [gameB]\<rparr>"

text \<open>A DAT with the rom-less GameC only, and the options with \<open>onlyBios\<close> set.\<close>

definition datC :: DAT where
  "datC = \<lparr>datName = ''C'', getGames = [gameC]\<rparr>"

definition onlyBiosOptions :: Options where
  "onlyBiosOptions = defaultOptions\<lparr>getOnlyBios := True\<rparr>"

text \<open>A comparison of names for \<open>localeCompare\<close>: the order of the character codes.\<close>

definition compareNames :: "string \<Rightarrow> string \<Rightarrow> int" where
  "compareNames a b = (if a < b then - 1 else if a = b then 0 else 1)"


text \<open>A stand-in for \<open>toLocaleString\<close> on small counts.\<close>

definition showCount :: "nat \<Rightarrow> string" where
  "showCount n = (if n = 0 then ''0'' else if n = 1 then ''1'' else ''many'')"

text \<open>An environment in which the output directory is missing and every operation succeeds.\<close>

definition okEnv :: FixdatEnv where
  "okEnv =
     \<lparr>fsExists = (\<lambda>_. False), fsMkdir = (\<lambda>_. True), fsWriteFile = (\<lambda>_ _. True),
      toXmlDat = (\<lambda>d. concat (map gameName (logiqxGames d))),
      getFilename = (\<lambda>d. headerName (getHeader d) @ ''.dat''),
      pathJoin = (\<lambda>a b. a @ ''/'' @ b)\<rparr>"

section \<open>The maps and the constructor, step by step\<close>

lemma mapGet_mapPush:
  "mapGet (mapPush m k v) k' =
     (if k' = k then Some (mapGetOrEmpty m k @ [v]) else mapGet m k')"
  by (induction m k v rule: mapPush.induct) (auto simp: mapGet_def mapGetOrEmpty_def)

lemma mapGetOrEmpty_mapPush:
  "mapGetOrEmpty (mapPush m k v) k' = mapGetOrEmpty m k' @ (if k' = k then [v] else [])"
  by (simp add: mapGetOrEmpty_def mapGet_mapPush)

lemma keys_mapPush:
  "map fst (mapPush m k v) = (if k \<in> set (map fst m) then map fst m else map fst m @ [k])"
  by (induction m k v rule: mapPush.induct) auto

lemma distinct_mapPush:
  "distinct (map fst m) \<Longrightarrow> distinct (map fst (mapPush m k v))"
  by (simp add: keys_mapPush)

lemma mapGetOrEmpty_append:
  "mapGetOrEmpty (append m k v) k' = mapGetOrEmpty m k' @ (if k' = k then [v] else [])"
  by (simp add: append_def mapGetOrEmpty_mapPush)

lemma mapGetOrEmpty_pushValueIntoMap:
  "mapGetOrEmpty (pushValueIntoMap m game v) t =
     mapGetOrEmpty m t @ (if qualifies game t then [v] else [])"
  by (cases t) (simp_all add: pushValueIntoMap_def Let_def mapGetOrEmpty_append)

lemma distinct_pushValueIntoMap:
  "distinct (map fst m) \<Longrightarrow> distinct (map fst (pushValueIntoMap m game v))"
  by (simp add: pushValueIntoMap_def Let_def append_def distinct_mapPush)

lemma mapGet_indexCandidates_aux:
  "mapGet (foldl (\<lambda>m c. mapPush m (gameHashCode (getGame c)) c) m0 cs) h =
     (case mapGetOrEmpty m0 h @ filter (\<lambda>c. gameHashCode (getGame c) = h) cs of
        [] \<Rightarrow> mapGet m0 h | vs \<Rightarrow> Some vs)"
proof (induction cs arbitrary: m0)
  case Nil
  show ?case by (simp add: mapGetOrEmpty_def split: option.splits list.splits)
next
  case (Cons c cs)
  show ?case
    by (simp add: Cons.IH mapGet_mapPush mapGetOrEmpty_mapPush split: list.splits)
qed

lemma mapGet_indexCandidates:
  "mapGet (indexCandidates cs) h =
     (case filter (\<lambda>c. gameHashCode (getGame c) = h) cs of [] \<Rightarrow> None | vs \<Rightarrow> Some vs)"
  using mapGet_indexCandidates_aux [of "[]" cs h]
  by (simp add: indexCandidates_def mapGetOrEmpty_def mapGet_def split: list.splits)

lemma find_filter: "List.find P xs = at0 (filter P xs)"
  by (induction xs) auto

lemma gameCandidates_None:
  "firstCandidate cs h = None \<Longrightarrow> mapGet (indexCandidates cs) h = None"
  by (cases "filter (\<lambda>c. gameHashCode (getGame c) = h) cs")
     (simp_all add: mapGet_indexCandidates firstCandidate_def find_filter)

lemma gameCandidates_Some:
  "firstCandidate cs h = Some a \<Longrightarrow> \<exists>vs. mapGet (indexCandidates cs) h = Some (a # vs)"
  by (cases "filter (\<lambda>c. gameHashCode (getGame c) = h) cs")
     (simp_all add: mapGet_indexCandidates firstCandidate_def find_filter)

lemma classifyGame_found:
  "mapGetOrEmpty (foundRomTypesToCandidates (classifyGame (indexCandidates cs) st g)) t =
     mapGetOrEmpty (foundRomTypesToCandidates st) t @
       (if qualifies g t then recordedFound cs g else [])"
proof (cases "firstCandidate cs (gameHashCode g)")
  case None
  with gameCandidates_None [OF None] show ?thesis
    by (simp add: classifyGame_def Let_def recordedFound_def mapGetOrEmpty_pushValueIntoMap)
next
  case (Some a)
  from gameCandidates_Some [OF Some] obtain vs
    where "mapGet (indexCandidates cs) (gameHashCode g) = Some (a # vs)" ..
  with Some show ?thesis
    by (simp add: classifyGame_def Let_def recordedFound_def mapGetOrEmpty_pushValueIntoMap)
qed

lemma classifyGame_incomplete:
  "mapGetOrEmpty (incompleteRomTypesToCandidates (classifyGame (indexCandidates cs) st g)) t =
     mapGetOrEmpty (incompleteRomTypesToCandidates st) t @
       (if qualifies g t then recordedIncomplete cs g else [])"
proof (cases "firstCandidate cs (gameHashCode g)")
  case None
  with gameCandidates_None [OF None] show ?thesis
    by (simp add: classifyGame_def Let_def recordedIncomplete_def mapGetOrEmpty_pushValueIntoMap)
next
  case (Some a)
  from gameCandidates_Some [OF Some] obtain vs
    where "mapGet (indexCandidates cs) (gameHashCode g) = Some (a # vs)" ..
  with Some show ?thesis
    by (simp add: classifyGame_def Let_def recordedIncomplete_def mapGetOrEmpty_pushValueIntoMap)
qed

lemma classifyGame_all:
  "mapGetOrEmpty (allRomTypesToGames (classifyGame idx st g)) t =
     mapGetOrEmpty (allRomTypesToGames st) t @ (if qualifies g t then [g] else [])"
  by (simp add: classifyGame_def Let_def mapGetOrEmpty_pushValueIntoMap
        split: option.splits)

lemma classifyGame_dat: "dat (classifyGame idx st g) = dat st"
  by (simp add: classifyGame_def Let_def split: option.splits)

lemma classifyGame_distinct:
  "distinct (map fst (foundRomTypesToCandidates st)) \<Longrightarrow>
   distinct (map fst (incompleteRomTypesToCandidates st)) \<Longrightarrow>
   distinct (map fst (foundRomTypesToCandidates (classifyGame idx st g))) \<and>
   distinct (map fst (incompleteRomTypesToCandidates (classifyGame idx st g)))"
  by (simp add: classifyGame_def Let_def distinct_pushValueIntoMap split: option.splits)

lemma foldl_classifyGame_found:
  "mapGetOrEmpty (foundRomTypesToCandidates (foldl (classifyGame (indexCandidates cs)) st gs)) t =
     mapGetOrEmpty (foundRomTypesToCandidates st) t @
       concat (map (\<lambda>g. if qualifies g t then recordedFound cs g else []) gs)"
  by (induction gs arbitrary: st) (simp_all add: classifyGame_found)

lemma foldl_classifyGame_incomplete:
  "mapGetOrEmpty
     (incompleteRomTypesToCandidates (foldl (classifyGame (indexCandidates cs)) st gs)) t =
     mapGetOrEmpty (incompleteRomTypesToCandidates st) t @
       concat (map (\<lambda>g. if qualifies g t then recordedIncomplete cs g else []) gs)"
  by (induction gs arbitrary: st) (simp_all add: classifyGame_incomplete)

lemma foldl_classifyGame_all:
  "mapGetOrEmpty (allRomTypesToGames (foldl (classifyGame idx) st gs)) t =
     mapGetOrEmpty (allRomTypesToGames st) t @ filter (\<lambda>g. qualifies g t) gs"
  by (induction gs arbitrary: st) (simp_all add: classifyGame_all)

lemma foldl_classifyGame_dat: "dat (foldl (classifyGame idx) st gs) = dat st"
  by (induction gs arbitrary: st) (simp_all add: classifyGame_dat)

lemma foldl_classifyGame_distinct:
  "distinct (map fst (foundRomTypesToCandidates st)) \<Longrightarrow>
   distinct (map fst (incompleteRomTypesToCandidates st)) \<Longrightarrow>
   distinct (map fst (foundRomTypesToCandidates (foldl (classifyGame idx) st gs))) \<and>
   distinct (map fst (incompleteRomTypesToCandidates (foldl (classifyGame idx) st gs)))"
proof (induction gs arbitrary: st)
  case Nil
  then show ?case by simp
next
  case (Cons g gs)
  from classifyGame_distinct [OF Cons.prems] show ?case
    by (simp add: Cons.IH)
qed

lemma foldl_recordPatched_found:
  "mapGetOrEmpty (foundRomTypesToCandidates (foldl recordPatched st ps)) t =
     mapGetOrEmpty (foundRomTypesToCandidates st) t @ (if t = PATCHED then map Some ps else [])"
  by (induction ps arbitrary: st) (simp_all add: recordPatched_def mapGetOrEmpty_append)

lemma foldl_recordPatched_all:
  "mapGetOrEmpty (allRomTypesToGames (foldl recordPatched st ps)) t =
     mapGetOrEmpty (allRomTypesToGames st) t @ (if t = PATCHED then map getGame ps else [])"
  by (induction ps arbitrary: st) (simp_all add: recordPatched_def mapGetOrEmpty_append)

lemma foldl_recordPatched_incomplete:
  "incompleteRomTypesToCandidates (foldl recordPatched st ps) = incompleteRomTypesToCandidates st"
  by (induction ps arbitrary: st) (simp_all add: recordPatched_def)

lemma foldl_recordPatched_dat: "dat (foldl recordPatched st ps) = dat st"
  by (induction ps arbitrary: st) (simp_all add: recordPatched_def)

lemma foldl_recordPatched_distinct:
  "distinct (map fst (foundRomTypesToCandidates st)) \<Longrightarrow>
   distinct (map fst (foundRomTypesToCandidates (foldl recordPatched st ps)))"
  by (induction ps arbitrary: st) (simp_all add: recordPatched_def append_def distinct_mapPush)

lemma mapGetOrEmpty_Nil: "mapGetOrEmpty [] t = []"
  by (simp add: mapGetOrEmpty_def mapGet_def)

lemma found_newDATStatus:
  "mapGetOrEmpty (foundRomTypesToCandidates (newDATStatus d cs)) t =
     concat (map (\<lambda>g. if qualifies g t then recordedFound cs g else []) (getGames d)) @
       (if t = PATCHED then map Some (filter isPatched cs) else [])"
  by (simp add: newDATStatus_def Let_def foldl_recordPatched_found foldl_classifyGame_found
        emptyStatus_def mapGetOrEmpty_Nil)

lemma incomplete_newDATStatus:
  "mapGetOrEmpty (incompleteRomTypesToCandidates (newDATStatus d cs)) t =
     concat (map (\<lambda>g. if qualifies g t then recordedIncomplete cs g else []) (getGames d))"
  by (simp add: newDATStatus_def Let_def foldl_recordPatched_incomplete
        foldl_classifyGame_incomplete emptyStatus_def mapGetOrEmpty_Nil)

lemma all_newDATStatus:
  "mapGetOrEmpty (allRomTypesToGames (newDATStatus d cs)) t =
     filter (\<lambda>g. qualifies g t) (getGames d) @
       (if t = PATCHED then map getGame (filter isPatched cs) else [])"
  by (simp add: newDATStatus_def Let_def foldl_recordPatched_all foldl_classifyGame_all
        emptyStatus_def mapGetOrEmpty_Nil)

lemma dat_newDATStatus: "dat (newDATStatus d cs) = d"
  by (simp add: newDATStatus_def Let_def foldl_recordPatched_dat foldl_classifyGame_dat
        emptyStatus_def)

lemma distinct_newDATStatus:
  "distinct (map fst (foundRomTypesToCandidates (newDATStatus d cs))) \<and>
   distinct (map fst (incompleteRomTypesToCandidates (newDATStatus d cs)))"
proof -
  let ?st = "foldl (classifyGame (indexCandidates cs)) (emptyStatus d) (getGames d)"
  have "distinct (map fst (foundRomTypesToCandidates ?st)) \<and>
        distinct (map fst (incompleteRomTypesToCandidates ?st))"
    by (rule foldl_classifyGame_distinct) (simp_all add: emptyStatus_def)
  then show ?thesis
    by (simp add: newDATStatus_def Let_def foldl_recordPatched_distinct
          foldl_recordPatched_incomplete)
qed

lemma set_mapValuesFlat:
  assumes "distinct (map fst m)"
  shows "set (mapValuesFlat m) = (\<Union>t. set (mapGetOrEmpty m t))"
proof (rule set_eqI)
  fix x
  have "x \<in> set (mapValuesFlat m) \<longleftrightarrow> (\<exists>k vs. (k, vs) \<in> set m \<and> x \<in> set vs)"
    by (force simp: mapValuesFlat_def)
  also have "\<dots> \<longleftrightarrow> (\<exists>k vs. map_of m k = Some vs \<and> x \<in> set vs)"
    using assms by simp
  also have "\<dots> \<longleftrightarrow> x \<in> (\<Union>t. set (mapGetOrEmpty m t))"
  proof
    assume "\<exists>k vs. map_of m k = Some vs \<and> x \<in> set vs"
    then obtain k vs where "map_of m k = Some vs" and "x \<in> set vs" by blast
    then have "x \<in> set (mapGetOrEmpty m k)"
      by (simp add: mapGetOrEmpty_def mapGet_def)
    then show "x \<in> (\<Union>t. set (mapGetOrEmpty m t))" by blast
  next
    assume "x \<in> (\<Union>t. set (mapGetOrEmpty m t))"
    then obtain t where "x \<in> set (mapGetOrEmpty m t)" by blast
    then show "\<exists>k vs. map_of m k = Some vs \<and> x \<in> set vs"
      by (cases "map_of m t") (auto simp: mapGetOrEmpty_def mapGet_def)
  qed
  finally show "x \<in> set (mapValuesFlat m) \<longleftrightarrow> x \<in> (\<Union>t. set (mapGetOrEmpty m t))" .
qed

lemma firstCandidate_SomeD:
  "firstCandidate cs h = Some c \<Longrightarrow> gameHashCode (getGame c) = h \<and> c \<in> set cs"
  by (auto simp: firstCandidate_def find_Some_iff)

lemma Some_in_recordedFound:
  "Some c \<in> set (recordedFound cs g) \<longleftrightarrow>
     firstCandidate cs (gameHashCode g) = Some c \<and>
     length (getRomsWithFiles c) = length (gameRoms g)"
  by (auto simp: recordedFound_def split: option.splits)

lemma None_in_recordedFound:
  "None \<in> set (recordedFound cs g) \<longleftrightarrow>
     firstCandidate cs (gameHashCode g) = None \<and> gameRoms g = []"
  by (auto simp: recordedFound_def split: option.splits)

lemma in_recordedIncomplete:
  "c \<in> set (recordedIncomplete cs g) \<longleftrightarrow>
     firstCandidate cs (gameHashCode g) = Some c \<and>
     length (getRomsWithFiles c) \<noteq> length (gameRoms g)"
  by (auto simp: recordedIncomplete_def split: option.splits)

lemma Some_in_found_tag:
  "Some c \<in> set (mapGetOrEmpty (foundRomTypesToCandidates (newDATStatus d cs)) t) \<longleftrightarrow>
     (\<exists>g\<in>set (getGames d). qualifies g t \<and> firstCandidate cs (gameHashCode g) = Some c \<and>
        length (getRomsWithFiles c) = length (gameRoms g)) \<or>
     (t = PATCHED \<and> c \<in> set cs \<and> isPatched c)"
  by (auto simp: found_newDATStatus Some_in_recordedFound split: if_splits)

lemma in_incomplete_tag:
  "c \<in> set (mapGetOrEmpty (incompleteRomTypesToCandidates (newDATStatus d cs)) t) \<longleftrightarrow>
     (\<exists>g\<in>set (getGames d). qualifies g t \<and> firstCandidate cs (gameHashCode g) = Some c \<and>
        length (getRomsWithFiles c) \<noteq> length (gameRoms g))"
  by (auto simp: incomplete_newDATStatus in_recordedIncomplete split: if_splits)

lemma Some_in_found_values:
  "Some c \<in> set (mapValuesFlat (foundRomTypesToCandidates (newDATStatus d cs))) \<longleftrightarrow>
     (\<exists>g\<in>set (getGames d). firstCandidate cs (gameHashCode g) = Some c \<and>
        length (getRomsWithFiles c) = length (gameRoms g)) \<or>
     (c \<in> set cs \<and> isPatched c)"
proof -
  have "Some c \<in> set (mapValuesFlat (foundRomTypesToCandidates (newDATStatus d cs))) \<longleftrightarrow>
        (\<exists>t. Some c \<in> set (mapGetOrEmpty (foundRomTypesToCandidates (newDATStatus d cs)) t))"
    using distinct_newDATStatus [of d cs] by (simp add: set_mapValuesFlat)
  also have "\<dots> \<longleftrightarrow>
     (\<exists>g\<in>set (getGames d). firstCandidate cs (gameHashCode g) = Some c \<and>
        length (getRomsWithFiles c) = length (gameRoms g)) \<or>
     (c \<in> set cs \<and> isPatched c)"
    unfolding Some_in_found_tag
  proof (intro iffI)
    assume "\<exists>t. (\<exists>g\<in>set (getGames d). qualifies g t \<and>
               firstCandidate cs (gameHashCode g) = Some c \<and>
               length (getRomsWithFiles c) = length (gameRoms g)) \<or>
             t = PATCHED \<and> c \<in> set cs \<and> isPatched c"
    then show "(\<exists>g\<in>set (getGames d). firstCandidate cs (gameHashCode g) = Some c \<and>
        length (getRomsWithFiles c) = length (gameRoms g)) \<or> (c \<in> set cs \<and> isPatched c)"
      by blast
  next
    assume "(\<exists>g\<in>set (getGames d). firstCandidate cs (gameHashCode g) = Some c \<and>
        length (getRomsWithFiles c) = length (gameRoms g)) \<or> (c \<in> set cs \<and> isPatched c)"
    then show "\<exists>t. (\<exists>g\<in>set (getGames d). qualifies g t \<and>
               firstCandidate cs (gameHashCode g) = Some c \<and>
               length (getRomsWithFiles c) = length (gameRoms g)) \<or>
             t = PATCHED \<and> c \<in> set cs \<and> isPatched c"
    proof
      assume "\<exists>g\<in>set (getGames d). firstCandidate cs (gameHashCode g) = Some c \<and>
        length (getRomsWithFiles c) = length (gameRoms g)"
      then have "(\<exists>g\<in>set (getGames d). qualifies g GAME \<and>
               firstCandidate cs (gameHashCode g) = Some c \<and>
               length (getRomsWithFiles c) = length (gameRoms g))" by simp
      then show ?thesis by blast
    next
      assume "c \<in> set cs \<and> isPatched c"
      then show ?thesis by blast
    qed
  qed
  finally show ?thesis .
qed

lemma in_incomplete_values:
  "c \<in> set (mapValuesFlat (incompleteRomTypesToCandidates (newDATStatus d cs))) \<longleftrightarrow>
     (\<exists>g\<in>set (getGames d). firstCandidate cs (gameHashCode g) = Some c \<and>
        length (getRomsWithFiles c) \<noteq> length (gameRoms g))"
proof -
  have "c \<in> set (mapValuesFlat (incompleteRomTypesToCandidates (newDATStatus d cs))) \<longleftrightarrow>
        (\<exists>t. c \<in> set (mapGetOrEmpty (incompleteRomTypesToCandidates (newDATStatus d cs)) t))"
    using distinct_newDATStatus [of d cs] by (simp add: set_mapValuesFlat)
  also have "\<dots> \<longleftrightarrow>
     (\<exists>g\<in>set (getGames d). firstCandidate cs (gameHashCode g) = Some c \<and>
        length (getRomsWithFiles c) \<noteq> length (gameRoms g))"
    unfolding in_incomplete_tag
  proof (intro iffI)
    assume "\<exists>t. \<exists>g\<in>set (getGames d). qualifies g t \<and>
               firstCandidate cs (gameHashCode g) = Some c \<and>
               length (getRomsWithFiles c) \<noteq> length (gameRoms g)"
    then show "\<exists>g\<in>set (getGames d). firstCandidate cs (gameHashCode g) = Some c \<and>
        length (getRomsWithFiles c) \<noteq> length (gameRoms g)"
      by blast
  next
    assume "\<exists>g\<in>set (getGames d). firstCandidate cs (gameHashCode g) = Some c \<and>
        length (getRomsWithFiles c) \<noteq> length (gameRoms g)"
    then have "\<exists>g\<in>set (getGames d). qualifies g GAME \<and>
               firstCandidate cs (gameHashCode g) = Some c \<and>
               length (getRomsWithFiles c) \<noteq> length (gameRoms g)" by simp
    then show "\<exists>t. \<exists>g\<in>set (getGames d). qualifies g t \<and>
               firstCandidate cs (gameHashCode g) = Some c \<and>
               length (getRomsWithFiles c) \<noteq> length (gameRoms g)" by blast
  qed
  finally show ?thesis .
qed

lemma firstCandidate_Test:
  "firstCandidate candidatesTest ''GameA'' = Some candidateA"
  "firstCandidate candidatesTest ''GameB'' = Some candidateB"
  "firstCandidate candidatesTest ''GameC'' = None"
  by (simp_all add: firstCandidate_def candidatesTest_def candidateA_def candidateB_def
        gameA_def gameB_def plainGame_def)

lemma set_map_filter_id: "set (List.map_filter (\<lambda>x. x) xs) = {c. Some c \<in> set xs}"
  by (induction xs) (auto simp: List.map_filter_simps split: option.splits)

lemma set_getInputFiles:
  "set (getInputFiles st) =
     getInputFile `
       (\<Union>c\<in>{c. Some c \<in> set (mapValuesFlat (foundRomTypesToCandidates st)) \<or>
                  c \<in> set (mapValuesFlat (incompleteRomTypesToCandidates st))}.
          set (getRomsWithFiles c))"
  by (auto simp: getInputFiles_def set_map_filter_id)

lemma foldl_or:
  "foldl (\<lambda>result x. result \<or> P x) b xs \<longleftrightarrow> b \<or> (\<exists>x\<in>set xs. P x)"
  by (induction xs arbitrary: b) auto

lemma anyGamesFound_iff:
  "anyGamesFound options st \<longleftrightarrow>
     (\<exists>t\<in>set (getAllowedTypes options). mapGetOrEmpty (foundRomTypesToCandidates st) t \<noteq> [])"
proof -
  have "\<And>t. (case mapGet (foundRomTypesToCandidates st) t of None \<Rightarrow> 0 | Some vs \<Rightarrow> length vs) > 0
          \<longleftrightarrow> mapGetOrEmpty (foundRomTypesToCandidates st) t \<noteq> []"
    by (simp add: mapGetOrEmpty_def split: option.splits)
  then show ?thesis
    by (simp add: anyGamesFound_def Let_def foldl_or)
qed

lemma filter_None_recorded:
  "filter (\<lambda>x. x = None) (concat (map (\<lambda>g. if qualifies g t then recordedFound cs g else []) gs)) =
     map (\<lambda>g. None)
       (filter (\<lambda>g. qualifies g t \<and> gameRoms g = [] \<and>
                  firstCandidate cs (gameHashCode g) = None) gs)"
  by (induction gs) (auto simp: recordedFound_def split: option.splits)

lemma in_writtenRomHashCodes:
  "h \<in> writtenRomHashCodes cs \<longleftrightarrow>
     (\<exists>c\<in>set cs. \<exists>x\<in>set (getRomsWithFiles c). romHashCode (getRom x) = h)"
  by (auto simp: writtenRomHashCodes_def)

lemma gamesWithMissingRoms_eq:
  "gamesWithMissingRoms d cs = filter (hasUnresolvedRom cs) (getGames d)"
  unfolding gamesWithMissingRoms_def hasUnresolvedRom_def
  by (rule filter_cong) (auto simp: list_all_iff list_ex_iff in_writtenRomHashCodes)

lemma sortDefault_id: "sortDefault xs = xs"
  by (induction xs) (simp_all add: sortDefault_def insort_is_Cons)

lemma set_reduceUnique_aux:
  "set (foldl (\<lambda>uniques x. if x \<in> set uniques then uniques else uniques @ [x]) acc xs) =
     set acc \<union> set xs"
  by (induction xs arbitrary: acc) auto

lemma set_reduceUnique: "set (reduceUnique xs) = set xs"
  by (simp add: reduceUnique_def set_reduceUnique_aux)



lemma set_getValuesForAllowedTypes:
  "set (getValuesForAllowedTypes isUndefined options m) =
     {v. \<not> isUndefined v \<and> (\<exists>t\<in>set (getAllowedTypes options). v \<in> set (mapGetOrEmpty m t))}"
  by (auto simp: getValuesForAllowedTypes_def sortDefault_id set_reduceUnique)

lemma find_defined: "List.find P xs \<noteq> None \<longleftrightarrow> (\<exists>x\<in>set xs. P x)"
  by (auto simp: find_None_iff)

lemma foundCandidate_defined:
  "(case List.find (\<lambda>candidate. case candidate of None \<Rightarrow> False
                                   | Some c \<Rightarrow> gameEquals (getGame c) game) xs of
      None \<Rightarrow> None | Some candidate \<Rightarrow> candidate) \<noteq> None \<longleftrightarrow>
   (\<exists>c. Some c \<in> set xs \<and> gameEquals (getGame c) game)"
proof (cases "List.find (\<lambda>candidate. case candidate of None \<Rightarrow> False
                                   | Some c \<Rightarrow> gameEquals (getGame c) game) xs")
  case None
  then have "\<not> (\<exists>c. Some c \<in> set xs \<and> gameEquals (getGame c) game)"
    by (force simp: find_None_iff)
  with None show ?thesis by simp
next
  case (Some a)
  then have a_in: "a \<in> set xs"
    and a_ok: "case a of None \<Rightarrow> False | Some c \<Rightarrow> gameEquals (getGame c) game"
    by (auto simp: find_Some_iff)
  from a_ok obtain c where "a = Some c" and "gameEquals (getGame c) game"
    by (cases a) simp_all
  with a_in Some show ?thesis by auto
qed

lemma csvRow_status:
  "csvRow options st foundCandidates incompleteCandidates game ! 2 =
     GameStatusInverted
       (if (\<exists>c. Some c \<in> set foundCandidates \<and> gameEquals (getGame c) game) \<or>
           gameRoms game = []
        then FOUND
        else if (\<exists>c\<in>set incompleteCandidates. gameEquals (getGame c) game) then INCOMPLETE
        else MISSING)"
proof -
  have "csvRow options st foundCandidates incompleteCandidates game ! 2 =
     GameStatusInverted
       (if (case List.find (\<lambda>candidate. case candidate of None \<Rightarrow> False
                                   | Some c \<Rightarrow> gameEquals (getGame c) game) foundCandidates of
              None \<Rightarrow> None | Some candidate \<Rightarrow> candidate) \<noteq> None \<or>
           length (gameRoms game) = 0
        then FOUND
        else if List.find (\<lambda>candidate. gameEquals (getGame candidate) game)
                  incompleteCandidates \<noteq> None then INCOMPLETE
        else MISSING)"
    by (simp add: csvRow_def Let_def buildCsvRow_def del: not_None_eq)
  then show ?thesis
    by (simp only: foundCandidate_defined find_defined length_0_conv)
qed

lemma foundMatch_iff:
  "foundMatch options st game \<longleftrightarrow>
     (\<exists>c. Some c \<in> set (getValuesForAllowedTypes (\<lambda>v. v = None) options
                          (foundRomTypesToCandidates st)) \<and> gameEquals (getGame c) game)"
  by (auto simp: foundMatch_def list_ex_iff set_getValuesForAllowedTypes split: option.splits)

lemma incompleteMatch_iff:
  "incompleteMatch options st game \<longleftrightarrow>
     (\<exists>c\<in>set (getValuesForAllowedTypes (\<lambda>v. False) options
                 (incompleteRomTypesToCandidates st)). gameEquals (getGame c) game)"
  by (auto simp: incompleteMatch_def list_ex_iff set_getValuesForAllowedTypes)


lemma gameInFoundUnder_iff:
  "gameInFoundUnder st t g \<longleftrightarrow>
     (\<exists>c. Some c \<in> set (mapGetOrEmpty (foundRomTypesToCandidates st) t) \<and>
          gameEquals (getGame c) g)"
  by (auto simp: gameInFoundUnder_def list_ex_iff split: option.splits)

lemma gameInIncompleteUnder_iff:
  "gameInIncompleteUnder st t g \<longleftrightarrow>
     (\<exists>c. c \<in> set (mapGetOrEmpty (incompleteRomTypesToCandidates st) t) \<and>
          gameEquals (getGame c) g)"
  by (auto simp: gameInIncompleteUnder_def list_ex_iff)

lemma gameInFound_iff:
  "gameInFound st g \<longleftrightarrow>
     (\<exists>c. Some c \<in> set (mapValuesFlat (foundRomTypesToCandidates st)) \<and>
          gameEquals (getGame c) g)"
  by (auto simp: gameInFound_def list_ex_iff split: option.splits)

lemma gameInIncomplete_iff:
  "gameInIncomplete st g \<longleftrightarrow>
     (\<exists>c. c \<in> set (mapValuesFlat (incompleteRomTypesToCandidates st)) \<and>
          gameEquals (getGame c) g)"
  by (auto simp: gameInIncomplete_def list_ex_iff)

lemma complete_and_incomplete_first_candidates:
  assumes same: "\<forall>g1\<in>set gs. \<forall>g2\<in>set gs.
            gameHashCode g1 = gameHashCode g2 \<longrightarrow> length (gameRoms g1) = length (gameRoms g2)"
    and g1: "g1 \<in> set gs" "firstCandidate cs (gameHashCode g1) = Some c"
      "length (getRomsWithFiles c) = length (gameRoms g1)"
    and g2: "g2 \<in> set gs" "firstCandidate cs (gameHashCode g2) = Some c'"
      "length (getRomsWithFiles c') \<noteq> length (gameRoms g2)"
    and eq: "gameEquals (getGame c) g" "gameEquals (getGame c') g"
  shows False
proof -
  from firstCandidate_SomeD [OF g1(2)] firstCandidate_SomeD [OF g2(2)] eq
  have h: "gameHashCode g1 = gameHashCode g2"
    by (simp add: gameEquals_def)
  with g1(2) g2(2) have "c = c'" by simp
  moreover from same g1(1) g2(1) h have "length (gameRoms g1) = length (gameRoms g2)"
    by blast
  ultimately show False using g1(3) g2(3) by simp
qed

lemma addKeys_Nil: "addKeys ks [] = ks"
  by (simp add: addKeys_def)

lemma addKeys_Cons: "addKeys ks (k # new) = addKeys (if k \<in> set ks then ks else ks @ [k]) new"
  by (simp add: addKeys_def)

lemma addKeys_append: "addKeys ks (xs @ ys) = addKeys (addKeys ks xs) ys"
  by (simp add: addKeys_def)

lemma set_addKeys: "set (addKeys ks new) = set ks \<union> set new"
  by (induction new arbitrary: ks) (auto simp: addKeys_Nil addKeys_Cons)

lemma distinct_addKeys: "distinct ks \<Longrightarrow> distinct (addKeys ks new)"
  by (induction new arbitrary: ks) (auto simp: addKeys_Nil addKeys_Cons)

lemma keys_mapPush_addKeys: "map fst (mapPush m k v) = addKeys (map fst m) [k]"
  by (simp add: keys_mapPush addKeys_Cons addKeys_Nil)

lemma keys_pushValueIntoMap:
  "map fst (pushValueIntoMap m game v) = addKeys (map fst m) (tagsOf game)"
  by (simp add: pushValueIntoMap_def Let_def append_def keys_mapPush_addKeys tagsOf_def
        addKeys_append [symmetric])

lemma addKeys_constant:
  "addKeys ks (map (\<lambda>_. k) ps) = (if ps = [] \<or> k \<in> set ks then ks else ks @ [k])"
  by (induction ps arbitrary: ks) (auto simp: addKeys_Nil addKeys_Cons)

lemma concat_map_unless:
  "concat (map (\<lambda>g. if P g then [] else f g) gs) = concat (map f (filter (\<lambda>g. \<not> P g) gs))"
  by (induction gs) auto

lemma classifyGame_found_keys:
  "map fst (foundRomTypesToCandidates (classifyGame (indexCandidates cs) st g)) =
     addKeys (map fst (foundRomTypesToCandidates st))
       (if recordedFound cs g = [] then [] else tagsOf g)"
proof (cases "firstCandidate cs (gameHashCode g)")
  case None
  with gameCandidates_None [OF None] show ?thesis
    by (simp add: classifyGame_def Let_def recordedFound_def keys_pushValueIntoMap addKeys_Nil)
next
  case (Some a)
  from gameCandidates_Some [OF Some] obtain vs
    where "mapGet (indexCandidates cs) (gameHashCode g) = Some (a # vs)" ..
  with Some show ?thesis
    by (simp add: classifyGame_def Let_def recordedFound_def keys_pushValueIntoMap addKeys_Nil)
qed

lemma classifyGame_incomplete_keys:
  "map fst (incompleteRomTypesToCandidates (classifyGame (indexCandidates cs) st g)) =
     addKeys (map fst (incompleteRomTypesToCandidates st))
       (if recordedIncomplete cs g = [] then [] else tagsOf g)"
proof (cases "firstCandidate cs (gameHashCode g)")
  case None
  with gameCandidates_None [OF None] show ?thesis
    by (simp add: classifyGame_def Let_def recordedIncomplete_def keys_pushValueIntoMap
          addKeys_Nil)
next
  case (Some a)
  from gameCandidates_Some [OF Some] obtain vs
    where "mapGet (indexCandidates cs) (gameHashCode g) = Some (a # vs)" ..
  with Some show ?thesis
    by (simp add: classifyGame_def Let_def recordedIncomplete_def keys_pushValueIntoMap
          addKeys_Nil)
qed

lemma foldl_classifyGame_found_keys:
  "map fst (foundRomTypesToCandidates (foldl (classifyGame (indexCandidates cs)) st gs)) =
     addKeys (map fst (foundRomTypesToCandidates st))
       (concat (map tagsOf (filter (\<lambda>g. recordedFound cs g \<noteq> []) gs)))"
proof (induction gs arbitrary: st)
  case Nil
  show ?case by (simp add: addKeys_Nil)
next
  case (Cons g gs)
  show ?case
    by (simp add: Cons.IH classifyGame_found_keys addKeys_Nil addKeys_append)
qed

lemma foldl_classifyGame_incomplete_keys:
  "map fst (incompleteRomTypesToCandidates (foldl (classifyGame (indexCandidates cs)) st gs)) =
     addKeys (map fst (incompleteRomTypesToCandidates st))
       (concat (map tagsOf (filter (\<lambda>g. recordedIncomplete cs g \<noteq> []) gs)))"
proof (induction gs arbitrary: st)
  case Nil
  show ?case by (simp add: addKeys_Nil)
next
  case (Cons g gs)
  show ?case
    by (simp add: Cons.IH classifyGame_incomplete_keys addKeys_Nil addKeys_append)
qed

lemma foldl_recordPatched_found_keys:
  "map fst (foundRomTypesToCandidates (foldl recordPatched st ps)) =
     addKeys (map fst (foundRomTypesToCandidates st)) (map (\<lambda>_. PATCHED) ps)"
  by (induction ps arbitrary: st)
     (simp_all add: recordPatched_def append_def keys_mapPush_addKeys addKeys_Nil
        addKeys_append [symmetric])

lemma PATCHED_notin_tagOrder: "PATCHED \<notin> set (tagOrder gs)"
  by (auto simp: tagOrder_def set_addKeys tagsOf_def)

lemma found_keys_newDATStatus:
  "map fst (foundRomTypesToCandidates (newDATStatus d cs)) =
     tagOrder (filter (\<lambda>g. recordedFound cs g \<noteq> []) (getGames d)) @
       (if filter isPatched cs = [] then [] else [PATCHED])"
  using PATCHED_notin_tagOrder [of "filter (\<lambda>g. recordedFound cs g \<noteq> []) (getGames d)"]
  by (simp add: newDATStatus_def Let_def foldl_recordPatched_found_keys
        foldl_classifyGame_found_keys emptyStatus_def addKeys_constant tagOrder_def)

lemma incomplete_keys_newDATStatus:
  "map fst (incompleteRomTypesToCandidates (newDATStatus d cs)) =
     tagOrder (filter (\<lambda>g. recordedIncomplete cs g \<noteq> []) (getGames d))"
  by (simp add: newDATStatus_def Let_def foldl_recordPatched_incomplete
        foldl_classifyGame_incomplete_keys emptyStatus_def tagOrder_def)

lemma mapValuesFlat_by_keys:
  "distinct (map fst m) \<Longrightarrow> mapValuesFlat m = concat (map (mapGetOrEmpty m) (map fst m))"
proof (induction m)
  case Nil
  show ?case by (simp add: mapValuesFlat_def)
next
  case (Cons p m)
  obtain k vs where p: "p = (k, vs)" by (cases p)
  from Cons.prems p have k: "k \<notin> fst ` set m" and d: "distinct (map fst m)" by auto
  have 1: "mapValuesFlat (p # m) = vs @ mapValuesFlat m"
    by (simp add: mapValuesFlat_def p)
  have 2: "mapGetOrEmpty (p # m) k = vs"
    by (simp add: p mapGetOrEmpty_def mapGet_def)
  have 3: "map (mapGetOrEmpty (p # m)) (map fst m) = map (mapGetOrEmpty m) (map fst m)"
    using k by (auto simp: p mapGetOrEmpty_def mapGet_def)
  have "concat (map (mapGetOrEmpty (p # m)) (map fst (p # m))) =
          mapGetOrEmpty (p # m) k @ concat (map (mapGetOrEmpty (p # m)) (map fst m))"
    by (simp add: p)
  also have "\<dots> = vs @ concat (map (mapGetOrEmpty m) (map fst m))"
    by (simp only: 2 3)
  also have "\<dots> = vs @ mapValuesFlat m"
    by (simp only: Cons.IH [OF d])
  finally show ?case by (simp only: 1)
qed

lemma found_values_newDATStatus:
  "mapValuesFlat (foundRomTypesToCandidates (newDATStatus d cs)) =
     concat (map (recordedFoundUnder cs (getGames d))
       (tagOrder (filter (\<lambda>g. recordedFound cs g \<noteq> []) (getGames d)))) @
     map Some (filter isPatched cs)"
proof -
  let ?ts = "tagOrder (filter (\<lambda>g. recordedFound cs g \<noteq> []) (getGames d))"
  let ?m = "foundRomTypesToCandidates (newDATStatus d cs)"
  have "map (mapGetOrEmpty ?m) ?ts = map (recordedFoundUnder cs (getGames d)) ?ts"
    using PATCHED_notin_tagOrder [of "filter (\<lambda>g. recordedFound cs g \<noteq> []) (getGames d)"]
    by (auto simp: found_newDATStatus recordedFoundUnder_def)
  moreover have "mapGetOrEmpty ?m PATCHED = map Some (filter isPatched cs)"
    by (simp add: found_newDATStatus)
  ultimately have vals:
    "map (mapGetOrEmpty ?m) ?ts = map (recordedFoundUnder cs (getGames d)) ?ts"
    "mapGetOrEmpty ?m PATCHED = map Some (filter isPatched cs)" .
  from distinct_newDATStatus [of d cs]
  have "mapValuesFlat ?m = concat (map (mapGetOrEmpty ?m) (map fst ?m))"
    by (simp only: mapValuesFlat_by_keys)
  also have "\<dots> = concat (map (mapGetOrEmpty ?m) ?ts) @
      (if filter isPatched cs = [] then [] else mapGetOrEmpty ?m PATCHED)"
    by (simp add: found_keys_newDATStatus)
  also have "\<dots> = concat (map (recordedFoundUnder cs (getGames d)) ?ts) @
      (if filter isPatched cs = [] then [] else map Some (filter isPatched cs))"
    by (simp only: vals)
  also have "\<dots> = concat (map (recordedFoundUnder cs (getGames d)) ?ts) @
      map Some (filter isPatched cs)"
    by simp
  finally show ?thesis .
qed

lemma incomplete_values_newDATStatus:
  "mapValuesFlat (incompleteRomTypesToCandidates (newDATStatus d cs)) =
     concat (map (recordedIncompleteUnder cs (getGames d))
       (tagOrder (filter (\<lambda>g. recordedIncomplete cs g \<noteq> []) (getGames d))))"
proof -
  have "\<And>t. mapGetOrEmpty (incompleteRomTypesToCandidates (newDATStatus d cs)) t =
          recordedIncompleteUnder cs (getGames d) t"
    by (simp add: incomplete_newDATStatus recordedIncompleteUnder_def)
  then show ?thesis
    using distinct_newDATStatus [of d cs]
    by (simp add: mapValuesFlat_by_keys incomplete_keys_newDATStatus cong: map_cong)
qed

lemma map_filter_id_append:
  "List.map_filter (\<lambda>x. x) (xs @ ys) = List.map_filter (\<lambda>x. x) xs @ List.map_filter (\<lambda>x. x) ys"
  by (simp add: List.map_filter_def)

lemma map_filter_id_Some: "List.map_filter (\<lambda>x. x) (map Some xs) = xs"
  by (induction xs) (simp_all add: List.map_filter_simps)

lemma set_tagOrder: "set (tagOrder gs) = {t. \<exists>g\<in>set gs. qualifies g t}"
proof -
  have "\<And>g t. t \<in> set (tagsOf g) \<longleftrightarrow> qualifies g t"
    by (case_tac t) (auto simp: tagsOf_def)
  then show ?thesis
    by (auto simp: tagOrder_def set_addKeys)
qed

lemma distinct_tagOrder: "distinct (tagOrder gs)"
  by (simp add: tagOrder_def distinct_addKeys)

lemma getAllowedTypes_PATCHED_last:
  "getAllowedTypes options = filter (\<lambda>type. type \<noteq> PATCHED) (getAllowedTypes options) @ [PATCHED]"
  by (simp add: getAllowedTypes_def)

lemma joinWith_snoc:
  "joinWith sep (xs @ [y]) = (if xs = [] then y else joinWith sep xs @ sep @ y)"
  by (induction sep xs rule: joinWith.induct) simp_all

lemma hasGames_iff:
  "(case mapGet m type of None \<Rightarrow> False | Some games \<Rightarrow> length games > 0) \<longleftrightarrow>
     mapGetOrEmpty m type \<noteq> []"
  by (simp add: mapGetOrEmpty_def split: option.splits)

lemma renderType_PATCHED:
  "renderType toLocaleString rgb options (newDATStatus d cs) PATCHED =
     (if \<not> usingDats options then toLocaleString (length (filter isPatched cs))
      else (if filter isPatched cs = [] then rgb 153 0 0 else rgb 0 166 0)
             (toLocaleString (length (filter isPatched cs))))
     @ '' patched games''"
proof -
  have f: "mapGetOrEmpty (foundRomTypesToCandidates (newDATStatus d cs)) PATCHED =
     map Some (filter isPatched cs)"
    by (simp add: found_newDATStatus)
  have a: "mapGetOrEmpty (allRomTypesToGames (newDATStatus d cs)) PATCHED =
     map getGame (filter isPatched cs)"
    by (simp add: all_newDATStatus)
  show ?thesis
    by (simp add: renderType_def f a Let_def)
qed

lemma toConsole_newDATStatus:
  "toConsole toLocaleString rgb options (newDATStatus d cs) =
     (if filter isPatched cs = []
      then joinWith '', '' (unpatchedSegments toLocaleString rgb options (newDATStatus d cs))
      else (if unpatchedSegments toLocaleString rgb options (newDATStatus d cs) = [] then []
            else joinWith '', ''
                   (unpatchedSegments toLocaleString rgb options (newDATStatus d cs)) @ '', '') @
           (if usingDats options
            then rgb 0 166 0 (toLocaleString (length (filter isPatched cs)))
            else toLocaleString (length (filter isPatched cs))) @ '' patched games'')
     @ '' '' @ (if shouldWrite options then ''written'' else ''found'')"
proof -
  let ?st = "newDATStatus d cs"
  let ?has = "\<lambda>type. case mapGet (allRomTypesToGames ?st) type of
                           None \<Rightarrow> False | Some games \<Rightarrow> length games > 0"
  let ?others = "unpatchedSegments toLocaleString rgb options ?st"
  have has: "?has PATCHED \<longleftrightarrow> filter isPatched cs \<noteq> []"
    by (simp add: hasGames_iff all_newDATStatus)
  have "filter ?has (getAllowedTypes options) =
          filter ?has (filter (\<lambda>type. type \<noteq> PATCHED) (getAllowedTypes options)) @
          (if filter isPatched cs = [] then [] else [PATCHED])"
    by (subst getAllowedTypes_PATCHED_last) (simp add: has del: filter_filter)
  then have segs: "filter (\<lambda>segment. length segment > 0)
           (map (renderType toLocaleString rgb options ?st)
             (filter ?has (getAllowedTypes options))) =
         ?others @ (if filter isPatched cs = [] then []
                    else [renderType toLocaleString rgb options ?st PATCHED])"
    by (simp add: unpatchedSegments_def renderType_PATCHED)
  show ?thesis
    unfolding toConsole_def segs
    by (simp add: joinWith_snoc renderType_PATCHED)
qed

section \<open>Allowed ROM types: the rule of each tag\<close>

text \<open>
  C9. For every setting of the toggles onlyBios, onlyDevice, onlyRetail, noBios and noDevice,
  the allowed ROM-type list contains \<open>games\<close> iff no only-filter is set, \<open>BIOSes\<close> iff
  onlyBios or (not noBios and not onlyDevice), \<open>devices\<close> iff onlyDevice or (not onlyBios
  and not noDevice), \<open>retail releases\<close> iff onlyRetail or (not onlyBios and not
  onlyDevice), and always \<open>patched games\<close>.
\<close>

theorem getAllowedTypes_membership:
  "(GAME \<in> set (getAllowedTypes options) \<longleftrightarrow>
      \<not> getOnlyBios options \<and> \<not> getOnlyDevice options \<and> \<not> getOnlyRetail options) \<and>
   (BIOS \<in> set (getAllowedTypes options) \<longleftrightarrow>
      getOnlyBios options \<or> (\<not> getNoBios options \<and> \<not> getOnlyDevice options)) \<and>
   (DEVICE \<in> set (getAllowedTypes options) \<longleftrightarrow>
      getOnlyDevice options \<or> (\<not> getOnlyBios options \<and> \<not> getNoDevice options)) \<and>
   (RETAIL \<in> set (getAllowedTypes options) \<longleftrightarrow>
      getOnlyRetail options \<or> (\<not> getOnlyBios options \<and> \<not> getOnlyDevice options)) \<and>
   PATCHED \<in> set (getAllowedTypes options)"
  by (simp add: getAllowedTypes_def)

theorem getAllowedTypes_membership_witness:
  "set (getAllowedTypes defaultOptions) = {GAME, BIOS, DEVICE, RETAIL, PATCHED} \<and>
   set (getAllowedTypes (defaultOptions\<lparr>getOnlyBios := True\<rparr>)) = {BIOS, PATCHED}"
  using getAllowedTypes_membership [of defaultOptions]
    getAllowedTypes_membership [of "defaultOptions\<lparr>getOnlyBios := True\<rparr>"]
  by (auto simp add: defaultOptions_def getAllowedTypes_def)

section \<open>Construction: which partition a game is recorded into\<close>

text \<open>
  C1, as the code has it. After construction, the incomplete partition under a tag lists, in
  catalog order, the first candidate of every game that qualifies for the tag and whose first
  candidate has a resolved-rom count different from the game's declared rom count (fewer or
  more). The found partition under the tag lists, for every other qualifying game that has a
  candidate group or declares no roms, its first candidate, or the \<open>undefined\<close> placeholder
  when it has none; the patched candidates follow under the patched tag. A game with neither a
  candidate group nor zero roms is recorded nowhere.
\<close>

theorem constructor_records_by_count_mismatch:
  "mapGetOrEmpty (incompleteRomTypesToCandidates (newDATStatus d cs)) t =
     concat (map (\<lambda>g. if qualifies g t then recordedIncomplete cs g else []) (getGames d)) \<and>
   mapGetOrEmpty (foundRomTypesToCandidates (newDATStatus d cs)) t =
     concat (map (\<lambda>g. if qualifies g t then recordedFound cs g else []) (getGames d)) @
       (if t = PATCHED then map Some (filter isPatched cs) else [])"
  by (simp only: incomplete_newDATStatus found_newDATStatus)

theorem constructor_records_by_count_mismatch_witness:
  "mapGetOrEmpty (incompleteRomTypesToCandidates (newDATStatus datTest candidatesTest)) GAME =
     [candidateB] \<and>
   mapGetOrEmpty (foundRomTypesToCandidates (newDATStatus datTest candidatesTest)) GAME =
     [Some candidateA, None] \<and>
   mapGetOrEmpty (foundRomTypesToCandidates (newDATStatus datTest candidatesTest)) RETAIL =
     [Some candidateA]"
proof -
  have A: "recordedFound candidatesTest gameA = [Some candidateA]"
    "recordedIncomplete candidatesTest gameA = []"
    by (simp_all add: recordedFound_def recordedIncomplete_def gameA_def plainGame_def
          firstCandidate_Test candidateA_def)
  have B: "recordedFound candidatesTest gameB = []"
    "recordedIncomplete candidatesTest gameB = [candidateB]"
    by (simp_all add: recordedFound_def recordedIncomplete_def gameB_def plainGame_def
          firstCandidate_Test candidateB_def)
  have C: "recordedFound candidatesTest gameC = [None]"
    "recordedIncomplete candidatesTest gameC = []"
    by (simp_all add: recordedFound_def recordedIncomplete_def gameC_def plainGame_def
          firstCandidate_Test)
  have R: "isRetail gameA" "\<not> isRetail gameB" "\<not> isRetail gameC"
    by (simp_all add: gameA_def gameB_def gameC_def plainGame_def)
  show ?thesis
    using constructor_records_by_count_mismatch [of datTest candidatesTest GAME]
      constructor_records_by_count_mismatch [of datTest candidatesTest RETAIL]
    by (simp add: datTest_def A B C R)
qed

text \<open>
  The claim as the specification words it tests "strictly less than". A game with one rom
  whose first candidate holds two resolved roms is then not incomplete and would be found;
  the constructor records it into the incomplete partition and not into the found one.
\<close>

theorem constructor_strictly_less_counterexample:
  "firstCandidate [candidateDTwo] (gameHashCode gameD) = Some candidateDTwo \<and>
   \<not> length (getRomsWithFiles candidateDTwo) < length (gameRoms gameD) \<and>
   mapGetOrEmpty (incompleteRomTypesToCandidates (newDATStatus datD [candidateDTwo])) GAME =
     [candidateDTwo] \<and>
   mapGetOrEmpty (foundRomTypesToCandidates (newDATStatus datD [candidateDTwo])) GAME = [] \<and>
   specIncomplete [candidateDTwo] gameD = [] \<and>
   specFound [candidateDTwo] gameD = [Some candidateDTwo]"
  by code_simp

section \<open>Construction: what the incomplete partition holds\<close>

text \<open>
  C5, as the code has it. A candidate is in the incomplete partition under a tag exactly when
  it is the first candidate of a catalog game that qualifies for the tag and its resolved-rom
  count differs from the number of roms the game declares. The count may be zero, and it may
  exceed the declared number.
\<close>

theorem incomplete_partition_count_differs:
  "c \<in> set (mapGetOrEmpty (incompleteRomTypesToCandidates (newDATStatus d cs)) t) \<longleftrightarrow>
     (\<exists>g\<in>set (getGames d). qualifies g t \<and> firstCandidate cs (gameHashCode g) = Some c \<and>
        length (getRomsWithFiles c) \<noteq> length (gameRoms g))"
  by (rule in_incomplete_tag)

theorem incomplete_partition_count_differs_witness:
  "candidateB \<in>
     set (mapGetOrEmpty (incompleteRomTypesToCandidates (newDATStatus datTest candidatesTest))
            GAME) \<and>
   candidateA \<notin>
     set (mapGetOrEmpty (incompleteRomTypesToCandidates (newDATStatus datTest candidatesTest))
            GAME)"
proof -
  have fc: "firstCandidate candidatesTest (gameHashCode gameA) = Some candidateA"
    "firstCandidate candidatesTest (gameHashCode gameB) = Some candidateB"
    "firstCandidate candidatesTest (gameHashCode gameC) = None"
    by code_simp+
  have ne: "candidateA \<noteq> candidateB" "candidateB \<noteq> candidateA"
    by code_simp+
  have len: "length (getRomsWithFiles candidateB) \<noteq> length (gameRoms gameB)"
    "length (getRomsWithFiles candidateA) = length (gameRoms gameA)"
    by code_simp+
  show ?thesis
    using incomplete_partition_count_differs [of candidateB datTest candidatesTest GAME]
      incomplete_partition_count_differs [of candidateA datTest candidatesTest GAME]
    by (simp add: datTest_def fc ne len)
qed

text \<open>
  The claim as stated asks for at least one resolved rom. The first candidate of the one-rom
  game of this catalog resolves none, and it is recorded as incomplete.
\<close>

theorem incomplete_with_no_resolved_rom_counterexample:
  "mapGetOrEmpty (incompleteRomTypesToCandidates (newDATStatus datD [candidateDNone])) GAME =
     [candidateDNone] \<and>
   firstCandidate [candidateDNone] (gameHashCode gameD) = Some candidateDNone \<and>
   \<not> 1 \<le> length (getRomsWithFiles candidateDNone)"
  by code_simp

section \<open>Construction: found and incomplete at once\<close>

text \<open>
  C4, as the code has it. Take a catalog in which games with the same hash code declare the
  same number of roms, and any candidate list. After construction no game appears in the found
  partition under a tag other than \<open>patched games\<close> and also in the incomplete partition
  (under any tag). With the patched tag counted, a game appears in both partitions exactly
  when it appears in the incomplete partition and some patched candidate of the list is a
  candidate of that game: patched candidates are recorded as found under the patched tag
  without regard to completeness.
\<close>

theorem found_and_incomplete_only_through_patched:
  assumes same: "\<forall>g1\<in>set (getGames d). \<forall>g2\<in>set (getGames d).
            gameHashCode g1 = gameHashCode g2 \<longrightarrow> length (gameRoms g1) = length (gameRoms g2)"
  shows "(\<forall>t t'. t \<noteq> PATCHED \<longrightarrow>
            \<not> (gameInFoundUnder (newDATStatus d cs) t g \<and>
               gameInIncompleteUnder (newDATStatus d cs) t' g)) \<and>
         (gameInFound (newDATStatus d cs) g \<and> gameInIncomplete (newDATStatus d cs) g \<longleftrightarrow>
            gameInIncomplete (newDATStatus d cs) g \<and>
            (\<exists>c\<in>set cs. isPatched c \<and> gameEquals (getGame c) g))"
proof (intro conjI allI impI)
  fix t t' :: ROMType
  assume t: "t \<noteq> PATCHED"
  show "\<not> (gameInFoundUnder (newDATStatus d cs) t g \<and>
           gameInIncompleteUnder (newDATStatus d cs) t' g)"
  proof
    assume both: "gameInFoundUnder (newDATStatus d cs) t g \<and>
                  gameInIncompleteUnder (newDATStatus d cs) t' g"
    then obtain c c' where
      c: "Some c \<in> set (mapGetOrEmpty (foundRomTypesToCandidates (newDATStatus d cs)) t)"
        "gameEquals (getGame c) g"
      and c': "c' \<in> set (mapGetOrEmpty (incompleteRomTypesToCandidates (newDATStatus d cs)) t')"
        "gameEquals (getGame c') g"
      unfolding gameInFoundUnder_iff gameInIncompleteUnder_iff by blast
    from c(1) t obtain g1 where g1: "g1 \<in> set (getGames d)"
      "firstCandidate cs (gameHashCode g1) = Some c"
      "length (getRomsWithFiles c) = length (gameRoms g1)"
      unfolding Some_in_found_tag by blast
    from c'(1) obtain g2 where g2: "g2 \<in> set (getGames d)"
      "firstCandidate cs (gameHashCode g2) = Some c'"
      "length (getRomsWithFiles c') \<noteq> length (gameRoms g2)"
      unfolding in_incomplete_tag by blast
    from complete_and_incomplete_first_candidates [OF same g1 g2 c(2) c'(2)]
    show False .
  qed
next
  show "gameInFound (newDATStatus d cs) g \<and> gameInIncomplete (newDATStatus d cs) g \<longleftrightarrow>
        gameInIncomplete (newDATStatus d cs) g \<and>
        (\<exists>c\<in>set cs. isPatched c \<and> gameEquals (getGame c) g)"
  proof
    assume both: "gameInFound (newDATStatus d cs) g \<and> gameInIncomplete (newDATStatus d cs) g"
    then obtain c c' where
      c: "Some c \<in> set (mapValuesFlat (foundRomTypesToCandidates (newDATStatus d cs)))"
        "gameEquals (getGame c) g"
      and c': "c' \<in> set (mapValuesFlat (incompleteRomTypesToCandidates (newDATStatus d cs)))"
        "gameEquals (getGame c') g"
      unfolding gameInFound_iff gameInIncomplete_iff by blast
    from c'(1) obtain g2 where g2: "g2 \<in> set (getGames d)"
      "firstCandidate cs (gameHashCode g2) = Some c'"
      "length (getRomsWithFiles c') \<noteq> length (gameRoms g2)"
      unfolding in_incomplete_values by blast
    from c(1) have "(\<exists>g\<in>set (getGames d). firstCandidate cs (gameHashCode g) = Some c \<and>
        length (getRomsWithFiles c) = length (gameRoms g)) \<or> (c \<in> set cs \<and> isPatched c)"
      unfolding Some_in_found_values .
    then have "\<exists>c\<in>set cs. isPatched c \<and> gameEquals (getGame c) g"
    proof
      assume "\<exists>g\<in>set (getGames d). firstCandidate cs (gameHashCode g) = Some c \<and>
        length (getRomsWithFiles c) = length (gameRoms g)"
      then obtain g1 where g1: "g1 \<in> set (getGames d)"
        "firstCandidate cs (gameHashCode g1) = Some c"
        "length (getRomsWithFiles c) = length (gameRoms g1)" by blast
      from complete_and_incomplete_first_candidates [OF same g1 g2 c(2) c'(2)]
      show ?thesis ..
    next
      assume "c \<in> set cs \<and> isPatched c"
      with c(2) show ?thesis by blast
    qed
    with both show "gameInIncomplete (newDATStatus d cs) g \<and>
        (\<exists>c\<in>set cs. isPatched c \<and> gameEquals (getGame c) g)" by blast
  next
    assume r: "gameInIncomplete (newDATStatus d cs) g \<and>
        (\<exists>c\<in>set cs. isPatched c \<and> gameEquals (getGame c) g)"
    then obtain c where "c \<in> set cs" "isPatched c" "gameEquals (getGame c) g" by blast
    then have "gameInFound (newDATStatus d cs) g"
      unfolding gameInFound_iff Some_in_found_values by blast
    with r show "gameInFound (newDATStatus d cs) g \<and> gameInIncomplete (newDATStatus d cs) g"
      by blast
  qed
qed

theorem found_and_incomplete_only_through_patched_witness:
  "\<not> (gameInFoundUnder (newDATStatus datB [candidateBPatched]) GAME gameB \<and>
      gameInIncompleteUnder (newDATStatus datB [candidateBPatched]) GAME gameB) \<and>
   gameInFound (newDATStatus datB [candidateBPatched]) gameB \<and>
   gameInIncomplete (newDATStatus datB [candidateBPatched]) gameB \<and>
   \<not> (gameInFound (newDATStatus datTest candidatesTest) gameB \<and>
      gameInIncomplete (newDATStatus datTest candidatesTest) gameB)"
proof -
  have sameB: "\<forall>g1\<in>set (getGames datB). \<forall>g2\<in>set (getGames datB).
      gameHashCode g1 = gameHashCode g2 \<longrightarrow> length (gameRoms g1) = length (gameRoms g2)"
    by code_simp
  have sameT: "\<forall>g1\<in>set (getGames datTest). \<forall>g2\<in>set (getGames datTest).
      gameHashCode g1 = gameHashCode g2 \<longrightarrow> length (gameRoms g1) = length (gameRoms g2)"
    by code_simp
  have inc: "gameInIncomplete (newDATStatus datB [candidateBPatched]) gameB"
    by code_simp
  have p: "\<exists>c\<in>set [candidateBPatched]. isPatched c \<and> gameEquals (getGame c) gameB"
    by code_simp
  have np: "\<not> (\<exists>c\<in>set candidatesTest. isPatched c \<and> gameEquals (getGame c) gameB)"
    by code_simp
  note B = found_and_incomplete_only_through_patched [OF sameB, of "[candidateBPatched]" gameB]
  note T = found_and_incomplete_only_through_patched [OF sameT, of candidatesTest gameB]
  from B have 1: "\<not> (gameInFoundUnder (newDATStatus datB [candidateBPatched]) GAME gameB \<and>
      gameInIncompleteUnder (newDATStatus datB [candidateBPatched]) GAME gameB)"
    by blast
  from B inc p have 2: "gameInFound (newDATStatus datB [candidateBPatched]) gameB \<and>
      gameInIncomplete (newDATStatus datB [candidateBPatched]) gameB"
    by blast
  from T np have 3: "\<not> (gameInFound (newDATStatus datTest candidatesTest) gameB \<and>
      gameInIncomplete (newDATStatus datTest candidatesTest) gameB)"
    by blast
  from 1 2 3 show ?thesis by blast
qed

text \<open>
  The claim as stated includes the patched tag. The only candidate of GameB is patched and
  resolves one of two roms: GameB is incomplete under \<open>games\<close> and found under
  \<open>patched games\<close>.
\<close>

theorem patched_incomplete_in_both_counterexample:
  "mapGetOrEmpty (incompleteRomTypesToCandidates (newDATStatus datB [candidateBPatched])) GAME =
     [candidateBPatched] \<and>
   mapGetOrEmpty (foundRomTypesToCandidates (newDATStatus datB [candidateBPatched])) PATCHED =
     [Some candidateBPatched] \<and>
   getGame candidateBPatched = gameB \<and>
   gameInFound (newDATStatus datB [candidateBPatched]) gameB \<and>
   gameInIncomplete (newDATStatus datB [candidateBPatched]) gameB"
  by code_simp

section \<open>The input files of the recorded candidates\<close>

text \<open>
  C6, as the code has it. \<open>getInputFiles\<close> returns this list, without deduplication:
  for each tag of the found partition, in the order in which the tags were first used, the
  input files of the resolved pairs of the candidates recorded under the tag; then those of
  the patched candidates; then, tag by tag in the same way, those of the candidates of the
  incomplete partition. The tags of a partition are pairwise different and are the tags for
  which a game recorded there qualifies, so a candidate contributes its files once for each
  tag it is recorded under. As a set, the result is the set of the input files of the first
  candidate of each catalog game and of every patched candidate.
\<close>

theorem getInputFiles_lists_every_recorded_file:
  "getInputFiles (newDATStatus d cs) =
     map getInputFile (concat (map getRomsWithFiles
       (List.map_filter (\<lambda>candidate. candidate)
          (concat (map (recordedFoundUnder cs (getGames d))
             (tagOrder (filter (\<lambda>g. recordedFound cs g \<noteq> []) (getGames d))))) @
        filter isPatched cs @
        concat (map (recordedIncompleteUnder cs (getGames d))
          (tagOrder (filter (\<lambda>g. recordedIncomplete cs g \<noteq> []) (getGames d))))))) \<and>
   distinct (tagOrder gs) \<and>
   set (tagOrder gs) = {t. \<exists>g\<in>set gs. qualifies g t} \<and>
   set (getInputFiles (newDATStatus d cs)) =
     getInputFile `
       (\<Union>c\<in>{c. (\<exists>g\<in>set (getGames d). firstCandidate cs (gameHashCode g) = Some c) \<or>
                  (c \<in> set cs \<and> isPatched c)}.
          set (getRomsWithFiles c))"
proof (intro conjI)
  show "getInputFiles (newDATStatus d cs) =
     map getInputFile (concat (map getRomsWithFiles
       (List.map_filter (\<lambda>candidate. candidate)
          (concat (map (recordedFoundUnder cs (getGames d))
             (tagOrder (filter (\<lambda>g. recordedFound cs g \<noteq> []) (getGames d))))) @
        filter isPatched cs @
        concat (map (recordedIncompleteUnder cs (getGames d))
          (tagOrder (filter (\<lambda>g. recordedIncomplete cs g \<noteq> []) (getGames d)))))))"
    by (simp only: getInputFiles_def found_values_newDATStatus incomplete_values_newDATStatus
          map_filter_id_append map_filter_id_Some append_assoc)
  show "distinct (tagOrder gs)" by (rule distinct_tagOrder)
  show "set (tagOrder gs) = {t. \<exists>g\<in>set gs. qualifies g t}" by (rule set_tagOrder)
  have "{c. Some c \<in> set (mapValuesFlat (foundRomTypesToCandidates (newDATStatus d cs))) \<or>
            c \<in> set (mapValuesFlat (incompleteRomTypesToCandidates (newDATStatus d cs)))} =
        {c. (\<exists>g\<in>set (getGames d). firstCandidate cs (gameHashCode g) = Some c) \<or>
            (c \<in> set cs \<and> isPatched c)}"
    unfolding Some_in_found_values in_incomplete_values by blast
  then show "set (getInputFiles (newDATStatus d cs)) =
     getInputFile `
       (\<Union>c\<in>{c. (\<exists>g\<in>set (getGames d). firstCandidate cs (gameHashCode g) = Some c) \<or>
                  (c \<in> set cs \<and> isPatched c)}.
          set (getRomsWithFiles c))"
    by (simp only: set_getInputFiles)
qed

theorem getInputFiles_lists_every_recorded_file_witness:
  "getInputFiles (newDATStatus datTest candidatesTest) =
     [\<lparr>getFilePath = ''a1.rom''\<rparr>, \<lparr>getFilePath = ''a2.rom''\<rparr>, \<lparr>getFilePath = ''a1.rom''\<rparr>,
      \<lparr>getFilePath = ''a2.rom''\<rparr>, \<lparr>getFilePath = ''b1.rom''\<rparr>]"
proof -
  have "map getInputFile (concat (map getRomsWithFiles
       (List.map_filter (\<lambda>candidate. candidate)
          (concat (map (recordedFoundUnder candidatesTest (getGames datTest))
             (tagOrder (filter (\<lambda>g. recordedFound candidatesTest g \<noteq> [])
                (getGames datTest))))) @
        filter isPatched candidatesTest @
        concat (map (recordedIncompleteUnder candidatesTest (getGames datTest))
          (tagOrder (filter (\<lambda>g. recordedIncomplete candidatesTest g \<noteq> [])
             (getGames datTest))))))) =
     [\<lparr>getFilePath = ''a1.rom''\<rparr>, \<lparr>getFilePath = ''a2.rom''\<rparr>, \<lparr>getFilePath = ''a1.rom''\<rparr>,
      \<lparr>getFilePath = ''a2.rom''\<rparr>, \<lparr>getFilePath = ''b1.rom''\<rparr>]"
    by code_simp
  with getInputFiles_lists_every_recorded_file [of datTest candidatesTest "[]", THEN conjunct1]
  show ?thesis by simp
qed

text \<open>
  The claim as stated says that no file path occurs twice. GameA is recorded under \<open>games\<close>
  and under \<open>retail releases\<close>, and both of its files are returned twice.
\<close>

theorem getInputFiles_repeats_counterexample:
  "map getFilePath (getInputFiles (newDATStatus datTest candidatesTest)) =
     [''a1.rom'', ''a2.rom'', ''a1.rom'', ''a2.rom'', ''b1.rom''] \<and>
   \<not> distinct (map getFilePath (getInputFiles (newDATStatus datTest candidatesTest)))"
  by code_simp

section \<open>Games without roms and without a candidate\<close>

text \<open>
  C10, as the code has it. For a catalog game that declares no roms and has no candidate,
  construction records an \<open>undefined\<close> placeholder into the found partition under each tag
  the game qualifies for; the placeholders under a tag are as many as such games qualifying
  for it, so the length of the found partition counts them; and \<open>anyGamesFound\<close> returns
  true whenever the options allow one of the tags the game qualifies for, whatever the
  candidate list.
\<close>

theorem zero_rom_game_placeholder:
  assumes "g \<in> set (getGames d)" and "gameRoms g = []"
    and "firstCandidate cs (gameHashCode g) = None"
  shows "(\<forall>t. qualifies g t \<longrightarrow>
            None \<in> set (mapGetOrEmpty (foundRomTypesToCandidates (newDATStatus d cs)) t)) \<and>
         (\<forall>t. length (filter (\<lambda>x. x = None)
                  (mapGetOrEmpty (foundRomTypesToCandidates (newDATStatus d cs)) t)) =
               length (filter (\<lambda>g. qualifies g t \<and> gameRoms g = [] \<and>
                         firstCandidate cs (gameHashCode g) = None) (getGames d))) \<and>
         ((\<exists>t\<in>set (getAllowedTypes options). qualifies g t) \<longrightarrow>
            anyGamesFound options (newDATStatus d cs))"
proof (intro conjI allI impI)
  fix t
  assume "qualifies g t"
  with assms show "None \<in> set (mapGetOrEmpty (foundRomTypesToCandidates (newDATStatus d cs)) t)"
    by (auto simp: found_newDATStatus None_in_recordedFound intro!: bexI [of _ g])
next
  fix t
  show "length (filter (\<lambda>x. x = None)
          (mapGetOrEmpty (foundRomTypesToCandidates (newDATStatus d cs)) t)) =
        length (filter (\<lambda>g. qualifies g t \<and> gameRoms g = [] \<and>
                  firstCandidate cs (gameHashCode g) = None) (getGames d))"
    by (simp add: found_newDATStatus filter_None_recorded filter_map comp_def)
next
  assume "\<exists>t\<in>set (getAllowedTypes options). qualifies g t"
  then obtain t where t: "t \<in> set (getAllowedTypes options)" "qualifies g t" by blast
  with assms have "None \<in> set (mapGetOrEmpty (foundRomTypesToCandidates (newDATStatus d cs)) t)"
    by (auto simp: found_newDATStatus None_in_recordedFound intro!: bexI [of _ g])
  then have "mapGetOrEmpty (foundRomTypesToCandidates (newDATStatus d cs)) t \<noteq> []"
    by auto
  with t(1) show "anyGamesFound options (newDATStatus d cs)"
    unfolding anyGamesFound_iff by blast
qed

theorem zero_rom_game_placeholder_witness:
  "None \<in> set (mapGetOrEmpty (foundRomTypesToCandidates (newDATStatus datTest [])) GAME) \<and>
   length (filter (\<lambda>x. x = None)
     (mapGetOrEmpty (foundRomTypesToCandidates (newDATStatus datTest [])) GAME)) = 1 \<and>
   anyGamesFound defaultOptions (newDATStatus datTest [])"
proof -
  have h: "gameC \<in> set (getGames datTest)" "gameRoms gameC = []"
    "firstCandidate [] (gameHashCode gameC) = None"
    by code_simp+
  have a: "GAME \<in> set (getAllowedTypes defaultOptions)" by code_simp
  have n: "length (filter (\<lambda>g. qualifies g GAME \<and> gameRoms g = [] \<and>
             firstCandidate [] (gameHashCode g) = None) (getGames datTest)) = 1"
    by code_simp
  note z = zero_rom_game_placeholder [OF h, of defaultOptions]
  from z [THEN conjunct1, THEN spec, of GAME]
  have 1: "None \<in> set (mapGetOrEmpty (foundRomTypesToCandidates (newDATStatus datTest [])) GAME)"
    by simp
  from z [THEN conjunct2, THEN conjunct1, THEN spec, of GAME] n
  have 2: "length (filter (\<lambda>x. x = None)
     (mapGetOrEmpty (foundRomTypesToCandidates (newDATStatus datTest [])) GAME)) = 1"
    by simp
  from z [THEN conjunct2, THEN conjunct2] a
  have 3: "anyGamesFound defaultOptions (newDATStatus datTest [])"
    by (auto intro: bexI [of _ GAME])
  from 1 2 3 show ?thesis by blast
qed

text \<open>
  The claim as stated holds \<open>anyGamesFound\<close> true for every catalog with a rom-less game.
  With \<open>onlyBios\<close> set only \<open>BIOSes\<close> and \<open>patched games\<close> are allowed; GameC is no BIOS,
  its placeholder is under \<open>games\<close> only, and \<open>anyGamesFound\<close> returns false.
\<close>

theorem anyGamesFound_onlyBios_counterexample:
  "gameC \<in> set (getGames datC) \<and> gameRoms gameC = [] \<and>
   mapGetOrEmpty (foundRomTypesToCandidates (newDATStatus datC [])) GAME = [None] \<and>
   \<not> anyGamesFound onlyBiosOptions (newDATStatus datC [])"
  by code_simp

section \<open>Patched candidates\<close>

text \<open>
  C8. Every patched candidate is recorded as found under the patched tag and its game is
  recorded under that tag in the all partition, so after construction the two lists have the
  same length, the number of patched candidates. The console segment of the patched tag is
  that one number followed by the tag, never the fraction found/all; and the string
  \<open>toConsole\<close> returns has, whenever there is a patched candidate, this segment as the
  last one, after the segments of the other allowed tags and before \<open>written\<close> or
  \<open>found\<close>, and no patched segment otherwise.
\<close>

theorem patched_found_equals_all:
  "mapGetOrEmpty (foundRomTypesToCandidates (newDATStatus d cs)) PATCHED =
     map Some (filter isPatched cs) \<and>
   mapGetOrEmpty (allRomTypesToGames (newDATStatus d cs)) PATCHED =
     map getGame (filter isPatched cs) \<and>
   length (mapGetOrEmpty (foundRomTypesToCandidates (newDATStatus d cs)) PATCHED) =
     length (mapGetOrEmpty (allRomTypesToGames (newDATStatus d cs)) PATCHED) \<and>
   renderType toLocaleString rgb options (newDATStatus d cs) PATCHED =
     (if \<not> usingDats options then toLocaleString (length (filter isPatched cs))
      else (if filter isPatched cs = [] then rgb 153 0 0 else rgb 0 166 0)
             (toLocaleString (length (filter isPatched cs))))
     @ '' patched games'' \<and>
   toConsole toLocaleString rgb options (newDATStatus d cs) =
     (if filter isPatched cs = []
      then joinWith '', '' (unpatchedSegments toLocaleString rgb options (newDATStatus d cs))
      else (if unpatchedSegments toLocaleString rgb options (newDATStatus d cs) = [] then []
            else joinWith '', ''
                   (unpatchedSegments toLocaleString rgb options (newDATStatus d cs)) @ '', '') @
           (if usingDats options
            then rgb 0 166 0 (toLocaleString (length (filter isPatched cs)))
            else toLocaleString (length (filter isPatched cs))) @ '' patched games'')
     @ '' '' @ (if shouldWrite options then ''written'' else ''found'')"
proof -
  have f: "mapGetOrEmpty (foundRomTypesToCandidates (newDATStatus d cs)) PATCHED =
     map Some (filter isPatched cs)"
    by (simp add: found_newDATStatus)
  have a: "mapGetOrEmpty (allRomTypesToGames (newDATStatus d cs)) PATCHED =
     map getGame (filter isPatched cs)"
    by (simp add: all_newDATStatus)
  from f a have l: "length (mapGetOrEmpty (foundRomTypesToCandidates (newDATStatus d cs)) PATCHED) =
     length (mapGetOrEmpty (allRomTypesToGames (newDATStatus d cs)) PATCHED)"
    by simp
  from f a l renderType_PATCHED [of toLocaleString rgb options d cs]
    toConsole_newDATStatus [of toLocaleString rgb options d cs]
  show ?thesis by (intro conjI)
qed

theorem patched_found_equals_all_witness:
  "length (mapGetOrEmpty (foundRomTypesToCandidates (newDATStatus datB [candidateBPatched]))
     PATCHED) = 1 \<and>
   length (mapGetOrEmpty (allRomTypesToGames (newDATStatus datB [candidateBPatched]))
     PATCHED) = 1 \<and>
   renderType showCount (\<lambda>r g b text. text) defaultOptions
     (newDATStatus datB [candidateBPatched]) PATCHED = ''1 patched games'' \<and>
   toConsole showCount (\<lambda>r g b text. text) defaultOptions
     (newDATStatus datB [candidateBPatched]) = ''0/1 games, 1 patched games found''"
proof -
  have p: "isPatched candidateBPatched" by code_simp
  have u: "usingDats defaultOptions" "\<not> shouldWrite defaultOptions" by code_simp+
  have o: "unpatchedSegments showCount (\<lambda>r g b text. text) defaultOptions
             (newDATStatus datB [candidateBPatched]) = [''0/1 games'']"
    by code_simp
  from patched_found_equals_all [of datB "[candidateBPatched]" showCount
      "\<lambda>r g b text. text" defaultOptions]
  show ?thesis by (simp add: p u o showCount_def)
qed

section \<open>The fixdat\<close>

text \<open>
  C2. \<open>create\<close> returns absent when fixdat generation is disabled or when no catalog game
  has an unresolved rom. Whenever it produces a derived catalog, the game list of that catalog
  is the list of the catalog games with at least one declared rom whose hash code is the
  hash code of no resolved rom of any candidate, and none of its games is fully resolved. It
  does produce one when generation is enabled, some game has an unresolved rom and the file
  operations succeed.
\<close>

theorem create_absent_or_unresolved_games:
  "(\<not> shouldFixdat options \<or> \<not> list_ex (hasUnresolvedRom cs) (getGames d) \<longrightarrow>
      create env options d cs = Inr None) \<and>
   (\<forall>path fixdat. create env options d cs = Inr (Some (path, fixdat)) \<longrightarrow>
      logiqxGames fixdat = filter (hasUnresolvedRom cs) (getGames d) \<and>
      set (logiqxGames fixdat) = {g \<in> set (getGames d). hasUnresolvedRom cs g} \<and>
      list_all (\<lambda>g. \<not> list_all (\<lambda>rom. romHashCode rom \<in> writtenRomHashCodes cs) (gameRoms g))
        (logiqxGames fixdat)) \<and>
   (shouldFixdat options \<and> list_ex (hasUnresolvedRom cs) (getGames d) \<and>
    (fsExists env (getFixdatOutput options) \<or> fsMkdir env (getFixdatOutput options)) \<and>
    (\<forall>path contents. fsWriteFile env path contents) \<longrightarrow>
      (\<exists>path fixdat. create env options d cs = Inr (Some (path, fixdat))))"
proof (intro conjI allI impI)
  assume "\<not> shouldFixdat options \<or> \<not> list_ex (hasUnresolvedRom cs) (getGames d)"
  then show "create env options d cs = Inr None"
    by (auto simp: create_def Let_def gamesWithMissingRoms_eq list_ex_iff filter_empty_conv)
next
  fix path fixdat
  assume "create env options d cs = Inr (Some (path, fixdat))"
  then have g: "logiqxGames fixdat = gamesWithMissingRoms d cs"
    by (auto simp: create_def Let_def split: if_splits)
  then show "logiqxGames fixdat = filter (hasUnresolvedRom cs) (getGames d)"
    by (simp add: gamesWithMissingRoms_eq)
  from g show "set (logiqxGames fixdat) = {g \<in> set (getGames d). hasUnresolvedRom cs g}"
    by (simp add: gamesWithMissingRoms_eq)
  from g show "list_all (\<lambda>g. \<not> list_all (\<lambda>rom. romHashCode rom \<in> writtenRomHashCodes cs)
                 (gameRoms g)) (logiqxGames fixdat)"
    by (simp add: gamesWithMissingRoms_def list_all_iff)
next
  assume a: "shouldFixdat options \<and> list_ex (hasUnresolvedRom cs) (getGames d) \<and>
    (fsExists env (getFixdatOutput options) \<or> fsMkdir env (getFixdatOutput options)) \<and>
    (\<forall>path contents. fsWriteFile env path contents)"
  then have "gamesWithMissingRoms d cs \<noteq> []"
    by (auto simp: gamesWithMissingRoms_eq list_ex_iff filter_empty_conv)
  with a show "\<exists>path fixdat. create env options d cs = Inr (Some (path, fixdat))"
    by (auto simp: create_def Let_def)
qed

theorem create_absent_or_unresolved_games_witness:
  "create okEnv defaultOptions datTest candidatesTest =
     Inr (Some (''out/fixdat.dat'',
       \<lparr>getHeader = \<lparr>headerName = ''fixdat'', headerDat = datTest,
                      headerOptions = defaultOptions\<rparr>,
        logiqxGames = [gameB]\<rparr>)) \<and>
   create okEnv (defaultOptions\<lparr>shouldFixdat := False\<rparr>) datTest candidatesTest = Inr None \<and>
   create okEnv defaultOptions datTest [candidateA, candidateB\<lparr>getRomsWithFiles :=
     [mkRomWithFiles ''b1'' ''b1.rom'', mkRomWithFiles ''b2'' ''b2.rom'']\<rparr>] = Inr None"
proof -
  let ?full = "[candidateA, candidateB\<lparr>getRomsWithFiles :=
     [mkRomWithFiles ''b1'' ''b1.rom'', mkRomWithFiles ''b2'' ''b2.rom'']\<rparr>]"
  have u: "filter (hasUnresolvedRom candidatesTest) (getGames datTest) = [gameB]"
    by code_simp
  have e: "list_ex (hasUnresolvedRom candidatesTest) (getGames datTest)"
    by code_simp
  have n: "\<not> list_ex (hasUnresolvedRom ?full) (getGames datTest)"
    by code_simp
  have io: "shouldFixdat defaultOptions"
    "fsExists okEnv (getFixdatOutput defaultOptions) \<or> fsMkdir okEnv (getFixdatOutput defaultOptions)"
    "\<forall>path contents. fsWriteFile okEnv path contents"
    by (simp_all add: okEnv_def defaultOptions_def)
  note c = create_absent_or_unresolved_games [of defaultOptions candidatesTest datTest okEnv]
  from c e io obtain path fixdat
    where r: "create okEnv defaultOptions datTest candidatesTest = Inr (Some (path, fixdat))"
    by blast
  with c u have g: "logiqxGames fixdat = [gameB]" by simp
  have p: "path = ''out/fixdat.dat''"
    "getHeader fixdat = \<lparr>headerName = ''fixdat'', headerDat = datTest,
                      headerOptions = defaultOptions\<rparr>"
    using r by (auto simp: create_def Let_def okEnv_def defaultOptions_def split: if_splits)
  from g p have "fixdat = \<lparr>getHeader = \<lparr>headerName = ''fixdat'', headerDat = datTest,
                      headerOptions = defaultOptions\<rparr>, logiqxGames = [gameB]\<rparr>"
    by (cases fixdat) simp
  with r p have 1: "create okEnv defaultOptions datTest candidatesTest =
     Inr (Some (''out/fixdat.dat'',
       \<lparr>getHeader = \<lparr>headerName = ''fixdat'', headerDat = datTest,
                      headerOptions = defaultOptions\<rparr>,
        logiqxGames = [gameB]\<rparr>))" by simp
  from create_absent_or_unresolved_games
         [of "defaultOptions\<lparr>shouldFixdat := False\<rparr>" candidatesTest datTest okEnv]
  have 2: "create okEnv (defaultOptions\<lparr>shouldFixdat := False\<rparr>) datTest candidatesTest =
             Inr None"
    by (simp add: defaultOptions_def)
  from create_absent_or_unresolved_games [of defaultOptions ?full datTest okEnv] n
  have 3: "create okEnv defaultOptions datTest ?full = Inr None"
    by blast
  from 1 2 3 show ?thesis by blast
qed

section \<open>CSV export: the status of a game\<close>

text \<open>
  C3. The status column of the CSV export holds, row by row in the order of the sorted games:
  FOUND when a found-candidate match exists for the game or the game declares no roms;
  otherwise INCOMPLETE when an incomplete-candidate match exists; otherwise MISSING. FOUND
  thus overrides INCOMPLETE when both matches are present.
\<close>

theorem csv_status_precedence:
  "map (\<lambda>row. row ! 2) (csvRows localeCompare options st) =
     map (\<lambda>game. GameStatusInverted
                   (if foundMatch options st game \<or> gameRoms game = [] then FOUND
                    else if incompleteMatch options st game then INCOMPLETE
                    else MISSING))
       (sortBy (\<lambda>a b. localeCompare (gameName a) (gameName b))
         (reduceUnique
           (getValuesForAllowedTypes (\<lambda>v. False) options (allRomTypesToGames st))))"
  by (simp only: csvRows_def Let_def map_map comp_def csvRow_status foundMatch_iff
        incompleteMatch_iff)

theorem csv_status_precedence_witness:
  "map (\<lambda>row. row ! 2) (csvRows compareNames defaultOptions (newDATStatus datTest candidatesTest)) =
     [''FOUND'', ''INCOMPLETE'', ''FOUND'']"
proof -
  let ?st = "newDATStatus datTest candidatesTest"
  have g: "sortBy (\<lambda>a b. compareNames (gameName a) (gameName b))
         (reduceUnique
           (getValuesForAllowedTypes (\<lambda>v. False) defaultOptions (allRomTypesToGames ?st))) =
        [gameA, gameB, gameC]"
    by code_simp
  have m: "foundMatch defaultOptions ?st gameA" "\<not> foundMatch defaultOptions ?st gameB"
    "incompleteMatch defaultOptions ?st gameB" "gameRoms gameB \<noteq> []" "gameRoms gameC = []"
    by code_simp+
  from csv_status_precedence [of compareNames defaultOptions ?st]
  show ?thesis by (simp add: g m)
qed

section \<open>CSV export: the columns of a row\<close>




end
